theory Spec2Isabelle
  imports Complex_Main "HOL-Library.Signed_Division"
begin

section \<open>PCC Vivace: monitor interval queue and rate controller\<close>

text \<open>
  A shallow embedding of \<^verbatim>\<open>MonitorIntervalQueue.cpp\<close> and
  \<^verbatim>\<open>CongestionController.cpp\<close>.

  Number types. \<^verbatim>\<open>QuicTime\<close>, \<^verbatim>\<open>QuicByteCount\<close> (\<^verbatim>\<open>int64_t\<close>) and
  \<^verbatim>\<open>QuicPacketNumber\<close> (\<^verbatim>\<open>int32_t\<close>) are \<open>int\<close>: the code only adds,
  subtracts and compares them, and signed overflow is undefined in C++, so the model
  covers the runs without overflow. The \<^verbatim>\<open>size_t\<close> counters are \<open>nat\<close>; the
  code decrements them only under a test that they are positive.
  \<^verbatim>\<open>QuicBandwidth\<close> (\<^verbatim>\<open>double\<close>) and \<^verbatim>\<open>float\<close> are \<open>real\<close>:
  arithmetic is exact, there is no rounding, no infinity and no NaN. A conversion of a
  floating value to an integer type truncates toward zero (\<open>trunc_to_int\<close>), and the
  quotient of two C++ \<^verbatim>\<open>int\<close>s truncates toward zero (\<open>sdiv\<close>).
\<close>

type_synonym QuicPacketCount = int
type_synonym QuicPacketNumber = int
type_synonym QuicByteCount = int
type_synonym QuicTime = int
type_synonym QuicBandwidth = real

definition trunc_to_int :: "real \<Rightarrow> int" where
  "trunc_to_int x = (if 0 \<le> x then \<lfloor>x\<rfloor> else \<lceil>x\<rceil>)"

text \<open>
  \<^verbatim>\<open>pow\<close> of the C library: \<^verbatim>\<open>pow(x, 1)\<close> is \<open>x\<close> for every \<open>x\<close>; otherwise
  the code calls it on a base that is not negative, where it is \<open>powr\<close>.
\<close>

definition c_pow :: "real \<Rightarrow> real \<Rightarrow> real" where
  "c_pow x y = (if y = 1 then x else x powr y)"

subsection \<open>Data model (MonitorIntervalQueue.h)\<close>

record CongestionEvent =
  ev_packet_number :: int
  ev_bytes_acked :: int
  ev_bytes_lost :: int
  ev_time :: nat

type_synonym AckedPacketVector = "CongestionEvent list"
type_synonym LostPacketVector = "CongestionEvent list"

record PacketRttSample =
  packet_number :: QuicPacketNumber
  sample_rtt :: QuicTime

record MonitorInterval =
  sending_rate :: QuicBandwidth
  is_useful :: bool
  rtt_fluctuation_tolerance_ratio :: real
  end_time :: QuicTime
  first_packet_sent_time :: QuicTime
  last_packet_sent_time :: QuicTime
  first_packet_number :: QuicPacketNumber
  last_packet_number :: QuicPacketNumber
  bytes_sent :: QuicByteCount
  bytes_acked :: QuicByteCount
  bytes_lost :: QuicByteCount
  rtt_on_monitor_start_us :: int
  rtt_on_monitor_end_us :: int
  utility :: real
  n_packets :: int
  packet_rtt_samples :: "PacketRttSample list"

text \<open>The constructor of \<^verbatim>\<open>MonitorInterval\<close>; the other members keep their defaults.\<close>

definition new_MonitorInterval ::
  "QuicBandwidth \<Rightarrow> bool \<Rightarrow> real \<Rightarrow> int \<Rightarrow> QuicTime \<Rightarrow> MonitorInterval" where
  "new_MonitorInterval rate useful tolerance rtt_us endt =
     \<lparr> sending_rate = rate, is_useful = useful,
       rtt_fluctuation_tolerance_ratio = tolerance, end_time = endt,
       first_packet_sent_time = 0, last_packet_sent_time = 0,
       first_packet_number = 0, last_packet_number = 0,
       bytes_sent = 0, bytes_acked = 0, bytes_lost = 0,
       rtt_on_monitor_start_us = rtt_us, rtt_on_monitor_end_us = rtt_us,
       utility = 0, n_packets = 0, packet_rtt_samples = [] \<rparr>"

record UtilityInfo =
  ui_sending_rate :: QuicBandwidth
  ui_utility :: real

definition new_UtilityInfo :: "QuicBandwidth \<Rightarrow> real \<Rightarrow> UtilityInfo" where
  "new_UtilityInfo rate u = \<lparr> ui_sending_rate = rate, ui_utility = u \<rparr>"

record MonitorIntervalQueue =
  monitor_intervals :: "MonitorInterval list"
  num_useful_intervals :: nat
  num_available_intervals :: nat

definition new_MonitorIntervalQueue :: MonitorIntervalQueue where
  "new_MonitorIntervalQueue =
     \<lparr> monitor_intervals = [], num_useful_intervals = 0, num_available_intervals = 0 \<rparr>"

subsection \<open>Constants of MonitorIntervalQueue.cpp\<close>

definition kNumMicrosPerSecond :: real where "kNumMicrosPerSecond = 1000000"
definition kLatencyCoefficient :: real where "kLatencyCoefficient = 1"
definition kAlpha :: real where "kAlpha = 1"
definition kExponent :: real where "kExponent = 9 / 10"
definition kMegabit :: nat where "kMegabit = 1024 * 1024"
definition kMinTransmissionTime :: int where "kMinTransmissionTime = 1"

subsection \<open>Queue operations\<close>

definition EnqueueNewMonitorInterval ::
  "QuicBandwidth \<Rightarrow> bool \<Rightarrow> real \<Rightarrow> int \<Rightarrow> QuicTime \<Rightarrow> MonitorIntervalQueue
     \<Rightarrow> MonitorIntervalQueue" where
  "EnqueueNewMonitorInterval rate useful tolerance rtt_us endt q =
     (let q1 = (if useful then q\<lparr>num_useful_intervals := num_useful_intervals q + 1\<rparr> else q)
      in q1\<lparr>monitor_intervals :=
               monitor_intervals q1 @ [new_MonitorInterval rate useful tolerance rtt_us endt]\<rparr>)"

text \<open>The body of \<^verbatim>\<open>OnPacketSent\<close> on the interval at the back of the queue.\<close>

definition record_sent_packet ::
  "QuicTime \<Rightarrow> QuicPacketNumber \<Rightarrow> QuicByteCount \<Rightarrow> MonitorInterval \<Rightarrow> MonitorInterval" where
  "record_sent_packet sent_time pn bytes b =
     (let b1 = (if bytes_sent b = 0
                then b\<lparr>first_packet_sent_time := sent_time, first_packet_number := pn\<rparr>
                else b)
      in b1\<lparr>last_packet_sent_time := sent_time, last_packet_number := pn,
             bytes_sent := bytes_sent b1 + bytes, n_packets := n_packets b1 + 1\<rparr>)"

definition MIQ_OnPacketSent ::
  "QuicTime \<Rightarrow> QuicPacketNumber \<Rightarrow> QuicByteCount \<Rightarrow> MonitorIntervalQueue
     \<Rightarrow> MonitorIntervalQueue" where
  "MIQ_OnPacketSent sent_time pn bytes q =
     (if monitor_intervals q = [] then q
      else q\<lparr>monitor_intervals :=
               butlast (monitor_intervals q)
                 @ [record_sent_packet sent_time pn bytes (last (monitor_intervals q))]\<rparr>)"

definition OnRttInflationInStarting :: "MonitorIntervalQueue \<Rightarrow> MonitorIntervalQueue" where
  "OnRttInflationInStarting q =
     q\<lparr>monitor_intervals := [], num_useful_intervals := 0, num_available_intervals := 0\<rparr>"

definition IsUtilityAvailable :: "MonitorInterval \<Rightarrow> QuicTime \<Rightarrow> bool" where
  "IsUtilityAvailable interval event_time =
     (event_time \<ge> end_time interval
      \<and> bytes_acked interval + bytes_lost interval = bytes_sent interval)"

definition IntervalContainsPacket :: "MonitorInterval \<Rightarrow> QuicPacketNumber \<Rightarrow> bool" where
  "IntervalContainsPacket interval pn =
     (pn \<ge> first_packet_number interval \<and> pn \<le> last_packet_number interval)"

subsection \<open>The utility function\<close>

text \<open>
  The loop over the first \<open>half_samples\<close> indices, which adds sample \<open>i\<close> to the first
  sum and sample \<open>i + half_samples\<close> to the second.
\<close>

function rtt_half_sums ::
  "PacketRttSample list \<Rightarrow> nat \<Rightarrow> nat \<Rightarrow> real \<times> real \<Rightarrow> real \<times> real" where
  "rtt_half_sums samples half_samples i (s1, s2) =
     (if i < half_samples
      then rtt_half_sums samples half_samples (i + 1)
             (s1 + real_of_int (sample_rtt (samples ! i)),
              s2 + real_of_int (sample_rtt (samples ! (i + half_samples))))
      else (s1, s2))"
  by pat_completeness auto
termination
  by (relation "measure (\<lambda>(samples, half_samples, i, acc). half_samples - i)") auto

declare rtt_half_sums.simps [simp del]

text \<open>
  \<^verbatim>\<open>CalculateUtility\<close> returns false and leaves the interval alone (\<open>None\<close>), or
  writes \<open>utility\<close> and returns true (\<open>Some\<close> of the interval written).
\<close>

definition CalculateUtility :: "MonitorInterval \<Rightarrow> MonitorInterval option" where
  "CalculateUtility interval =
     (if last_packet_sent_time interval = first_packet_sent_time interval then None
      else
        let mi_duration = max kMinTransmissionTime
              (last_packet_sent_time interval - first_packet_sent_time interval);
            mi_time_seconds = real_of_int mi_duration / kNumMicrosPerSecond;
            bytes_lost_f = real_of_int (bytes_lost interval);
            bytes_sent_f = real_of_int (bytes_sent interval);
            sending_rate_bps = bytes_sent_f * 8 / mi_time_seconds;
            sending_factor = kAlpha * c_pow (sending_rate_bps / real kMegabit) kExponent;
            half_samples = length (packet_rtt_samples interval) div 2;
            half_sums = rtt_half_sums (packet_rtt_samples interval) half_samples 0 (0, 0);
            rtt_first_half_sum = fst half_sums;
            rtt_second_half_sum = snd half_sums;
            latency_inflation = 2 * (rtt_second_half_sum - rtt_first_half_sum)
                                  / (rtt_first_half_sum + rtt_second_half_sum);
            rtt_penalty =
              real_of_int
                (trunc_to_int
                   (real_of_int (trunc_to_int (latency_inflation * 100)) / 100 * 100)
                 sdiv 2 * 2) / 100;
            rtt_contribution =
              kLatencyCoefficient * 11330 * bytes_sent_f * c_pow rtt_penalty 1;
            loss_rate = bytes_lost_f / bytes_sent_f;
            loss_contribution0 =
              real_of_int (n_packets interval) * (1135 / 100 * (c_pow (1 + loss_rate) 1 - 1));
            loss_contribution =
              (if loss_rate \<le> 3 / 100
               then real_of_int (n_packets interval) * (1 * (c_pow (1 + loss_rate) 1 - 1))
               else loss_contribution0);
            current_utility =
              sending_factor
                - (loss_contribution + rtt_contribution) * (sending_rate_bps / real kMegabit)
                    / real_of_int (n_packets interval)
        in Some (interval\<lparr>utility := current_utility\<rparr>))"

subsection \<open>Attribution of lost and acked packets\<close>

fun apply_lost_packets :: "LostPacketVector \<Rightarrow> MonitorInterval \<Rightarrow> MonitorInterval" where
  "apply_lost_packets [] interval = interval"
| "apply_lost_packets (lost_packet # ps) interval =
     apply_lost_packets ps
       (if IntervalContainsPacket interval (ev_packet_number lost_packet)
        then interval\<lparr>bytes_lost := bytes_lost interval + ev_bytes_lost lost_packet\<rparr>
        else interval)"

fun apply_acked_packets ::
  "AckedPacketVector \<Rightarrow> int \<Rightarrow> MonitorInterval \<Rightarrow> MonitorInterval" where
  "apply_acked_packets [] rtt_us interval = interval"
| "apply_acked_packets (acked_packet # ps) rtt_us interval =
     apply_acked_packets ps rtt_us
       (if IntervalContainsPacket interval (ev_packet_number acked_packet)
        then interval\<lparr>bytes_acked := bytes_acked interval + ev_bytes_acked acked_packet,
                       packet_rtt_samples := packet_rtt_samples interval
                         @ [\<lparr>packet_number = ev_packet_number acked_packet,
                              sample_rtt = rtt_us\<rparr>]\<rparr>
        else interval)"

text \<open>
  The loop of \<^verbatim>\<open>OnCongestionEvent\<close> over the intervals. It returns the intervals
  as the loop leaves them, \<open>num_available_intervals_\<close> and
  \<open>has_invalid_utility\<close>. The \<^verbatim>\<open>break\<close> leaves the rest of the queue untouched.
\<close>

definition keep_interval ::
  "MonitorInterval \<Rightarrow> MonitorInterval list \<times> nat \<times> bool
     \<Rightarrow> MonitorInterval list \<times> nat \<times> bool" where
  "keep_interval interval r = (interval # fst r, snd r)"

fun scan_intervals ::
  "AckedPacketVector \<Rightarrow> LostPacketVector \<Rightarrow> int \<Rightarrow> QuicTime
     \<Rightarrow> MonitorInterval list \<Rightarrow> nat \<Rightarrow> MonitorInterval list \<times> nat \<times> bool" where
  "scan_intervals acked lost rtt_us event_time [] num_available = ([], num_available, False)"
| "scan_intervals acked lost rtt_us event_time (interval # rest) num_available =
     (if \<not> is_useful interval
      then keep_interval interval
             (scan_intervals acked lost rtt_us event_time rest num_available)
      else if IsUtilityAvailable interval event_time
      then keep_interval interval
             (scan_intervals acked lost rtt_us event_time rest (num_available + 1))
      else
        let i2 = apply_acked_packets acked rtt_us (apply_lost_packets lost interval)
        in if IsUtilityAvailable i2 event_time
           then (let i3 = i2\<lparr>rtt_on_monitor_end_us := rtt_us\<rparr>
                 in case CalculateUtility i3 of
                      None \<Rightarrow> (i3 # rest, num_available, True)
                    | Some i4 \<Rightarrow>
                        keep_interval i4
                          (scan_intervals acked lost rtt_us event_time rest
                             (num_available + 1)))
           else keep_interval i2
                  (scan_intervals acked lost rtt_us event_time rest num_available))"

text \<open>The batch handed to the delegate: one entry per useful interval, in queue order.\<close>

definition utility_batch :: "MonitorInterval list \<Rightarrow> UtilityInfo list" where
  "utility_batch intervals =
     map (\<lambda>interval. new_UtilityInfo (sending_rate interval) (utility interval))
       (filter is_useful intervals)"

text \<open>
  The closing \<^verbatim>\<open>while (num_useful_intervals_ > 0)\<close> loop, which pops the front of
  the deque. Popping an empty deque is undefined behaviour: \<open>None\<close>.
\<close>

fun remove_useful :: "MonitorInterval list \<Rightarrow> nat \<Rightarrow> MonitorInterval list option" where
  "remove_useful intervals 0 = Some intervals"
| "remove_useful [] (Suc n) = None"
| "remove_useful (interval # rest) (Suc n) =
     (if is_useful interval then remove_useful rest n else remove_useful rest (Suc n))"

text \<open>
  \<^verbatim>\<open>MonitorIntervalQueue::OnCongestionEvent\<close>. The delegate is a parameter, as the
  queue holds it by reference to an interface: it receives the batch, the queue as it is
  at the call (the controller can read its own queue then) and the delegate's state.
\<close>

definition MIQ_OnCongestionEvent ::
  "(UtilityInfo list \<Rightarrow> MonitorIntervalQueue \<Rightarrow> 'd \<Rightarrow> 'd option)
     \<Rightarrow> AckedPacketVector \<Rightarrow> LostPacketVector \<Rightarrow> int \<Rightarrow> QuicTime
     \<Rightarrow> MonitorIntervalQueue \<Rightarrow> 'd \<Rightarrow> (MonitorIntervalQueue \<times> 'd) option" where
  "MIQ_OnCongestionEvent delegate acked lost rtt_us event_time q d =
     (let q0 = q\<lparr>num_available_intervals := 0\<rparr>
      in if num_useful_intervals q0 = 0 then Some (q0, d)
         else
           let r = scan_intervals acked lost rtt_us event_time (monitor_intervals q0) 0;
               has_invalid_utility = snd (snd r);
               q1 = q0\<lparr>monitor_intervals := fst r, num_available_intervals := fst (snd r)\<rparr>
           in if num_useful_intervals q1 > num_available_intervals q1 \<and> \<not> has_invalid_utility
              then Some (q1, d)
              else
                case (if \<not> has_invalid_utility
                      then delegate (utility_batch (monitor_intervals q1)) q1 d
                      else Some d) of
                  None \<Rightarrow> None
                | Some d' \<Rightarrow>
                    (case remove_useful (monitor_intervals q1) (num_useful_intervals q1) of
                       None \<Rightarrow> None
                     | Some rest \<Rightarrow>
                         Some (q1\<lparr>monitor_intervals := rest, num_useful_intervals := 0,
                                   num_available_intervals := 0\<rparr>, d')))"

text \<open>\<^verbatim>\<open>current()\<close> is the back of the deque; on an empty deque it is undefined.\<close>

definition current :: "MonitorIntervalQueue \<Rightarrow> MonitorInterval option" where
  "current q = (if monitor_intervals q = [] then None else Some (last (monitor_intervals q)))"

definition empty_queue :: "MonitorIntervalQueue \<Rightarrow> bool" where
  "empty_queue q = (monitor_intervals q = [])"

subsection \<open>The controller (CongestionController.h, CongestionController.cpp)\<close>

datatype SenderMode = STARTING | PROBING | DECISION_MADE

datatype RateChangeDirection = INCREASE | DECREASE

text \<open>
  The member \<^verbatim>\<open>max_cwnd_bits_\<close> is never written nor read and is left out. The
  members lose their trailing underscore; \<open>cc_sending_rate\<close> is \<^verbatim>\<open>sending_rate_\<close>.
\<close>

record CongestionController =
  mode :: SenderMode
  cc_sending_rate :: QuicBandwidth
  latest_utility_info :: UtilityInfo
  monitor_duration :: QuicTime
  direction :: RateChangeDirection
  rounds :: nat
  interval_queue :: MonitorIntervalQueue
  avg_gradient :: real
  gradient_samples :: "real list"
  initial_rtt :: QuicTime
  avg_rtt :: QuicTime
  swing_buffer :: nat
  rate_change_amplifier :: real
  rate_change_proportion_allowance :: nat
  previous_change :: QuicBandwidth

definition FLAGS_max_rtt_fluctuation_tolerance_ratio_in_starting :: real where
  "FLAGS_max_rtt_fluctuation_tolerance_ratio_in_starting = 3 / 10"
definition FLAGS_max_rtt_fluctuation_tolerance_ratio_in_decision_made :: real where
  "FLAGS_max_rtt_fluctuation_tolerance_ratio_in_decision_made = 5 / 100"
definition kMinSendingRate :: QuicBandwidth where "kMinSendingRate = 2 * real kMegabit"
definition kMinimumRateChange :: QuicBandwidth where
  "kMinimumRateChange = real_of_int (trunc_to_int (1 / 2 * real kMegabit))"
definition kDefaultTCPMSS :: nat where "kDefaultTCPMSS = 1400"
definition kProbingStepSize :: real where "kProbingStepSize = 5 / 100"
definition kDecisionMadeStepSize :: real where "kDecisionMadeStepSize = 2 / 100"
definition kMaxDecisionMadeStepSize :: real where "kMaxDecisionMadeStepSize = 10 / 100"
definition kNumIntervalGroupsInProbing :: nat where "kNumIntervalGroupsInProbing = 2"
definition kBitsPerByte :: nat where "kBitsPerByte = 8"
definition kMinimumPacketsPerInterval :: nat where "kMinimumPacketsPerInterval = 10"
definition kAvgGradientSampleSize :: nat where "kAvgGradientSampleSize = 1"
definition kUtilityGradientToRateChangeFactor :: real where
  "kUtilityGradientToRateChangeFactor = 1 * real kMegabit"
definition kInitialMaximumProportionalChange :: real where
  "kInitialMaximumProportionalChange = 5 / 100"
definition kMaximumProportionalChangeStepSize :: real where
  "kMaximumProportionalChangeStepSize = 6 / 100"

definition ComputeMonitorDuration :: "QuicBandwidth \<Rightarrow> QuicTime \<Rightarrow> QuicTime" where
  "ComputeMonitorDuration rate rtt =
     trunc_to_int
       (max (15 / 10 * real_of_int rtt)
            (real (kMinimumPacketsPerInterval * kBitsPerByte * kDefaultTCPMSS) / rate))"

definition new_CongestionController ::
  "QuicTime \<Rightarrow> QuicPacketCount \<Rightarrow> QuicPacketCount \<Rightarrow> CongestionController" where
  "new_CongestionController initial_rtt_us initial_congestion_window max_congestion_window =
     \<lparr> mode = STARTING,
       cc_sending_rate =
         real_of_int (initial_congestion_window * int kDefaultTCPMSS * int kBitsPerByte)
           * kNumMicrosPerSecond / real_of_int initial_rtt_us,
       latest_utility_info = new_UtilityInfo 0 0,
       monitor_duration = 0,
       direction = INCREASE,
       rounds = 1,
       interval_queue = new_MonitorIntervalQueue,
       avg_gradient = 0,
       gradient_samples = [],
       initial_rtt = initial_rtt_us,
       avg_rtt = 0,
       swing_buffer = 0,
       rate_change_amplifier = 0,
       rate_change_proportion_allowance = 0,
       previous_change = 0 \<rparr>"

definition PacingRate :: "CongestionController \<Rightarrow> QuicBandwidth" where
  "PacingRate c =
     (if empty_queue (interval_queue c) then cc_sending_rate c
      else sending_rate (last (monitor_intervals (interval_queue c))))"

definition GetCongestionWindow :: "CongestionController \<Rightarrow> QuicByteCount" where
  "GetCongestionWindow c =
     (let rtt_us = (if avg_rtt c = 0 then initial_rtt c else avg_rtt c)
      in trunc_to_int (cc_sending_rate c * real_of_int rtt_us / kNumMicrosPerSecond))"

definition UpdateAverageGradient ::
  "real \<Rightarrow> CongestionController \<Rightarrow> CongestionController" where
  "UpdateAverageGradient new_gradient c =
     (let c1 =
        (if gradient_samples c = [] then c\<lparr>avg_gradient := new_gradient\<rparr>
         else if length (gradient_samples c) < kAvgGradientSampleSize
         then c\<lparr>avg_gradient :=
                  (avg_gradient c * real (length (gradient_samples c)) + new_gradient)
                    / real (length (gradient_samples c) + 1)\<rparr>
         else c\<lparr>avg_gradient :=
                  avg_gradient c - hd (gradient_samples c) / real kAvgGradientSampleSize
                    + new_gradient / real kAvgGradientSampleSize,
                gradient_samples := tl (gradient_samples c)\<rparr>)
      in c1\<lparr>gradient_samples := gradient_samples c1 @ [new_gradient]\<rparr>)"

text \<open>
  \<^verbatim>\<open>ComputeRateChange\<close>, block by block. Each block reads the change computed so
  far and the controller; it yields the new change or the controller it leaves.

  First block: a change whose direction differs from the previous change resets the
  amplifier and the allowance and raises the swing buffer, up to 2.
\<close>

definition reset_on_direction_change ::
  "QuicBandwidth \<Rightarrow> CongestionController \<Rightarrow> CongestionController" where
  "reset_on_direction_change change c =
     (if (change > 0) \<noteq> (previous_change c > 0)
      then c\<lparr>rate_change_amplifier := 0,
             rate_change_proportion_allowance := 0,
             swing_buffer := (if swing_buffer c < 2 then swing_buffer c + 1 else swing_buffer c)\<rparr>
      else c)"

text \<open>Second block: the change is multiplied by a factor read off the amplifier.\<close>

definition amplify_change :: "QuicBandwidth \<Rightarrow> CongestionController \<Rightarrow> QuicBandwidth" where
  "amplify_change change c =
     (if rate_change_amplifier c < 3 then change * (rate_change_amplifier c + 1)
      else if rate_change_amplifier c < 6 then change * (2 * rate_change_amplifier c - 2)
      else if rate_change_amplifier c < 9 then change * (4 * rate_change_amplifier c - 14)
      else change * (9 * rate_change_amplifier c - 50))"

text \<open>
  Third block: a change in the direction of the previous one raises the amplifier when
  the swing buffer is empty, and then lowers a swing buffer that is not empty.
\<close>

definition raise_amplifier :: "QuicBandwidth \<Rightarrow> CongestionController \<Rightarrow> CongestionController" where
  "raise_amplifier change c =
     (if (change > 0) = (previous_change c > 0)
      then
        (let c1 =
           (if swing_buffer c = 0
            then (if rate_change_amplifier c < 3
                  then c\<lparr>rate_change_amplifier := rate_change_amplifier c + 1 / 2\<rparr>
                  else c\<lparr>rate_change_amplifier := rate_change_amplifier c + 1\<rparr>)
            else c)
         in if swing_buffer c1 > 0 then c1\<lparr>swing_buffer := swing_buffer c1 - 1\<rparr> else c1)
      else c)"

text \<open>
  Fourth block: the change is clipped to a share of the sending rate. The share is read
  before the allowance is updated.
\<close>

definition max_allowed_change_ratio :: "CongestionController \<Rightarrow> real" where
  "max_allowed_change_ratio c =
     kInitialMaximumProportionalChange
       + real (rate_change_proportion_allowance c) * kMaximumProportionalChangeStepSize"

definition change_ratio :: "QuicBandwidth \<Rightarrow> CongestionController \<Rightarrow> real" where
  "change_ratio change c =
     (let ratio = change / cc_sending_rate c
      in if ratio > 0 then ratio else - 1 * ratio)"

definition clip_change :: "QuicBandwidth \<Rightarrow> CongestionController \<Rightarrow> QuicBandwidth" where
  "clip_change change c =
     (if change_ratio change c > max_allowed_change_ratio c
      then (if change < 0 then - 1 * max_allowed_change_ratio c * cc_sending_rate c
            else max_allowed_change_ratio c * cc_sending_rate c)
      else change)"

definition update_allowance :: "QuicBandwidth \<Rightarrow> CongestionController \<Rightarrow> CongestionController" where
  "update_allowance change c =
     (if change_ratio change c > max_allowed_change_ratio c
      then c\<lparr>rate_change_proportion_allowance := rate_change_proportion_allowance c + 1\<rparr>
      else if rate_change_proportion_allowance c > 0
      then c\<lparr>rate_change_proportion_allowance := rate_change_proportion_allowance c - 1\<rparr>
      else c)"

text \<open>Fifth block: the direction is tested again, on the clipped change.\<close>

definition reset_after_clip :: "QuicBandwidth \<Rightarrow> CongestionController \<Rightarrow> CongestionController" where
  "reset_after_clip change c =
     (if (change > 0) \<noteq> (previous_change c > 0)
      then c\<lparr>rate_change_amplifier := 0, rate_change_proportion_allowance := 0\<rparr>
      else c)"

text \<open>
  \<^verbatim>\<open>ComputeRateChange\<close> for two samples of different rates, up to the last
  statement before the floor: the change so far and the controller as it is left.
\<close>

definition rate_change_before_floor ::
  "UtilityInfo \<Rightarrow> UtilityInfo \<Rightarrow> CongestionController
     \<Rightarrow> QuicBandwidth \<times> CongestionController" where
  "rate_change_before_floor utility_sample_1 utility_sample_2 c =
     (let utility_gradient =
            real kMegabit * (ui_utility utility_sample_1 - ui_utility utility_sample_2)
              / (ui_sending_rate utility_sample_1 - ui_sending_rate utility_sample_2);
          c1 = UpdateAverageGradient utility_gradient c;
          change = avg_gradient c1 * kUtilityGradientToRateChangeFactor;
          c2 = reset_on_direction_change change c1;
          change1 = amplify_change change c2;
          c3 = raise_amplifier change1 c2;
          change2 = clip_change change1 c3;
          c4 = update_allowance change1 c3;
          c5 = reset_after_clip change2 c4
      in (change2, c5))"

text \<open>The last statement of \<^verbatim>\<open>ComputeRateChange\<close>: the floor on the change.\<close>

definition floor_rate_change :: "QuicBandwidth \<Rightarrow> QuicBandwidth" where
  "floor_rate_change change =
     (if change < 0 \<and> change > - 1 * kMinimumRateChange then - 1 * kMinimumRateChange
      else if change > 0 \<and> change < kMinimumRateChange then kMinimumRateChange
      else change)"

definition ComputeRateChange ::
  "UtilityInfo \<Rightarrow> UtilityInfo \<Rightarrow> CongestionController
     \<Rightarrow> QuicBandwidth \<times> CongestionController" where
  "ComputeRateChange utility_sample_1 utility_sample_2 c =
     (if ui_sending_rate utility_sample_1 = ui_sending_rate utility_sample_2
      then (kMinimumRateChange, c)
      else
        let r = rate_change_before_floor utility_sample_1 utility_sample_2 c
        in (floor_rate_change (fst r), snd r))"

text \<open>
  The loop of \<^verbatim>\<open>CanMakeDecision\<close> over the probing groups, from group \<open>i\<close> on.
  It is entered only with at least \<open>2 * kNumIntervalGroupsInProbing\<close> entries, so every
  index it reads is in range.
\<close>

function groups_agree :: "UtilityInfo list \<Rightarrow> nat \<Rightarrow> bool \<Rightarrow> bool" where
  "groups_agree utility_info i increase =
     (if i < kNumIntervalGroupsInProbing
      then
        (let increase_i =
               (if ui_utility (utility_info ! (2 * i)) > ui_utility (utility_info ! (2 * i + 1))
                then ui_sending_rate (utility_info ! (2 * i))
                       > ui_sending_rate (utility_info ! (2 * i + 1))
                else ui_sending_rate (utility_info ! (2 * i))
                       < ui_sending_rate (utility_info ! (2 * i + 1)));
             increase1 = (if i = 0 then increase_i else increase)
         in if increase_i \<noteq> increase1 then False
            else groups_agree utility_info (i + 1) increase1)
      else True)"
  by pat_completeness auto
termination
  by (relation "measure (\<lambda>(utility_info, i, increase). kNumIntervalGroupsInProbing - i)") auto

declare groups_agree.simps [simp del]

definition CanMakeDecision :: "UtilityInfo list \<Rightarrow> bool" where
  "CanMakeDecision utility_info =
     (if length utility_info < 2 * kNumIntervalGroupsInProbing then False
      else groups_agree utility_info 0 False)"

text \<open>
  \<^verbatim>\<open>EnterProbing\<close>. In PROBING it reads \<^verbatim>\<open>interval_queue_.current()\<close>, which
  is undefined on an empty queue (\<open>None\<close>).
\<close>

definition EnterProbing :: "CongestionController \<Rightarrow> CongestionController option" where
  "EnterProbing c =
     (case
        (case mode c of
           STARTING \<Rightarrow> Some (c\<lparr>cc_sending_rate := cc_sending_rate c * (5 / 10)\<rparr>)
         | DECISION_MADE \<Rightarrow>
             Some
               (if direction c = INCREASE
                then c\<lparr>cc_sending_rate :=
                         cc_sending_rate c
                           * (1 / (1 + min (real (rounds c) * kDecisionMadeStepSize)
                                          kMaxDecisionMadeStepSize))\<rparr>
                else c\<lparr>cc_sending_rate :=
                         cc_sending_rate c
                           * (1 / (1 - min (real (rounds c) * kDecisionMadeStepSize)
                                          kMaxDecisionMadeStepSize))\<rparr>)
         | PROBING \<Rightarrow>
             (case current (interval_queue c) of
                None \<Rightarrow> None
              | Some cur \<Rightarrow>
                  Some
                    (if is_useful cur
                     then (if direction c = INCREASE
                           then c\<lparr>cc_sending_rate :=
                                    cc_sending_rate c * (1 / (1 + kProbingStepSize))\<rparr>
                           else c\<lparr>cc_sending_rate :=
                                    cc_sending_rate c * (1 / (1 - kProbingStepSize))\<rparr>)
                     else c))) of
        None \<Rightarrow> None
      | Some c1 \<Rightarrow>
          Some (if mode c1 = PROBING then c1\<lparr>rounds := rounds c1 + 1\<rparr>
                else c1\<lparr>mode := PROBING, rounds := 1\<rparr>))"

definition EnterDecisionMade ::
  "QuicBandwidth \<Rightarrow> CongestionController \<Rightarrow> CongestionController" where
  "EnterDecisionMade new_rate c =
     c\<lparr>cc_sending_rate := new_rate, mode := DECISION_MADE, rounds := 1\<rparr>"

text \<open>The clamp both callers of \<^verbatim>\<open>ComputeRateChange\<close> apply to its result.\<close>

definition clamp_rate_change :: "CongestionController \<Rightarrow> QuicBandwidth \<Rightarrow> QuicBandwidth" where
  "clamp_rate_change c rate_change =
     (if cc_sending_rate c + rate_change < kMinSendingRate
      then kMinSendingRate - cc_sending_rate c
      else rate_change)"

text \<open>
  \<^verbatim>\<open>OnUtilityAvailable\<close>. Reading \<^verbatim>\<open>utility_info[0]\<close> of an empty vector is
  undefined (\<open>None\<close>).
\<close>

definition OnUtilityAvailable ::
  "UtilityInfo list \<Rightarrow> CongestionController \<Rightarrow> CongestionController option" where
  "OnUtilityAvailable utility_info c =
     (case mode c of
        STARTING \<Rightarrow>
          (if utility_info = [] then None
           else if ui_utility (utility_info ! 0) > ui_utility (latest_utility_info c)
           then Some (c\<lparr>cc_sending_rate := cc_sending_rate c * 2,
                        latest_utility_info := utility_info ! 0,
                        rounds := rounds c + 1\<rparr>)
           else EnterProbing c)
      | PROBING \<Rightarrow>
          (if CanMakeDecision utility_info
           then
             (let c1 = c\<lparr>direction :=
                          (if ui_utility (utility_info ! 0) > ui_utility (utility_info ! 1)
                           then (if ui_sending_rate (utility_info ! 0)
                                      > ui_sending_rate (utility_info ! 1)
                                 then INCREASE else DECREASE)
                           else (if ui_sending_rate (utility_info ! 0)
                                      > ui_sending_rate (utility_info ! 1)
                                 then DECREASE else INCREASE))\<rparr>;
                  c2 = c1\<lparr>latest_utility_info :=
                           (if ui_utility (utility_info ! (2 * kNumIntervalGroupsInProbing - 2))
                                 > ui_utility
                                     (utility_info ! (2 * kNumIntervalGroupsInProbing - 1))
                            then utility_info ! (2 * kNumIntervalGroupsInProbing - 2)
                            else utility_info ! (2 * kNumIntervalGroupsInProbing - 1))\<rparr>;
                  r = ComputeRateChange (utility_info ! 0) (utility_info ! 1) c2;
                  c3 = snd r;
                  rate_change = clamp_rate_change c3 (fst r);
                  c4 = c3\<lparr>previous_change := rate_change\<rparr>
              in Some (EnterDecisionMade (cc_sending_rate c4 + rate_change) c4))
           else EnterProbing c)
      | DECISION_MADE \<Rightarrow>
          (if utility_info = [] then None
           else
             (let r = ComputeRateChange (utility_info ! 0) (latest_utility_info c) c;
                  c1 = snd r;
                  rate_change = clamp_rate_change c1 (fst r)
              in if (rate_change > 0) = (previous_change c1 > 0)
                 then Some (c1\<lparr>previous_change := rate_change,
                               cc_sending_rate := cc_sending_rate c1 + rate_change,
                               latest_utility_info := utility_info ! 0\<rparr>)
                 else EnterProbing c1)))"

definition CreateUsefulInterval :: "CongestionController \<Rightarrow> bool" where
  "CreateUsefulInterval c =
     (if avg_rtt c = 0 then False
      else
        let max_num_useful = (if mode c = PROBING then 2 * kNumIntervalGroupsInProbing else 1)
        in num_useful_intervals (interval_queue c) < max_num_useful)"

text \<open>
  \<^verbatim>\<open>MaybeSetSendingRate\<close>; \<open>rand_value\<close> is what \<^verbatim>\<open>rand()\<close> returns if it is
  called.
\<close>

definition MaybeSetSendingRate ::
  "nat \<Rightarrow> CongestionController \<Rightarrow> CongestionController option" where
  "MaybeSetSendingRate rand_value c =
     (let n = num_useful_intervals (interval_queue c)
      in if mode c \<noteq> PROBING then Some c
         else
           case (if n = 2 * kNumIntervalGroupsInProbing
                 then map_option (\<lambda>cur. \<not> is_useful cur) (current (interval_queue c))
                 else Some False) of
             None \<Rightarrow> None
           | Some True \<Rightarrow> Some c
           | Some False \<Rightarrow>
               (let c1 =
                      (if n \<noteq> 0
                       then (if direction c = INCREASE
                             then c\<lparr>cc_sending_rate :=
                                      cc_sending_rate c * (1 / (1 + kProbingStepSize))\<rparr>
                             else c\<lparr>cc_sending_rate :=
                                      cc_sending_rate c * (1 / (1 - kProbingStepSize))\<rparr>)
                       else c)
                in if n \<noteq> 0 \<and> n = 2 * kNumIntervalGroupsInProbing then Some c1
                   else
                     (let c2 = c1\<lparr>direction :=
                                   (if n mod 2 = 0
                                    then (if rand_value mod 2 = 1 then INCREASE else DECREASE)
                                    else (if direction c1 = INCREASE then DECREASE
                                          else INCREASE))\<rparr>
                      in Some (if direction c2 = INCREASE
                               then c2\<lparr>cc_sending_rate :=
                                        cc_sending_rate c2 * (1 + kProbingStepSize)\<rparr>
                               else c2\<lparr>cc_sending_rate :=
                                        cc_sending_rate c2 * (1 - kProbingStepSize)\<rparr>))))"

text \<open>
  \<^verbatim>\<open>CongestionController::OnPacketSent\<close>, without the arguments it does not read
  (\<^verbatim>\<open>bytes_in_flight\<close>, \<^verbatim>\<open>is_retransmittable\<close>). The test that opens a new
  interval reads \<^verbatim>\<open>current()\<close> when there is a useful interval and
  \<^verbatim>\<open>avg_rtt_\<close> is not zero.
\<close>

definition OnPacketSent ::
  "QuicTime \<Rightarrow> QuicPacketNumber \<Rightarrow> QuicByteCount \<Rightarrow> nat \<Rightarrow> CongestionController
     \<Rightarrow> CongestionController option" where
  "OnPacketSent sent_time pn bytes rand_value c =
     (case (if num_useful_intervals (interval_queue c) = 0 then Some True
            else if avg_rtt c \<noteq> 0
            then map_option
                   (\<lambda>cur. sent_time - first_packet_sent_time cur > monitor_duration c)
                   (current (interval_queue c))
            else Some False) of
        None \<Rightarrow> None
      | Some False \<Rightarrow>
          Some (c\<lparr>interval_queue := MIQ_OnPacketSent sent_time pn bytes (interval_queue c)\<rparr>)
      | Some True \<Rightarrow>
          (case MaybeSetSendingRate rand_value c of
             None \<Rightarrow> None
           | Some c1 \<Rightarrow>
               (let c2 = c1\<lparr>monitor_duration :=
                              ComputeMonitorDuration (cc_sending_rate c1) (avg_rtt c1)\<rparr>;
                    rtt_fluctuation_tolerance_ratio =
                      (if mode c2 = STARTING
                       then FLAGS_max_rtt_fluctuation_tolerance_ratio_in_starting
                       else if mode c2 = DECISION_MADE
                       then FLAGS_max_rtt_fluctuation_tolerance_ratio_in_decision_made
                       else 0);
                    useful = CreateUsefulInterval c2;
                    c3 = c2\<lparr>interval_queue :=
                              EnqueueNewMonitorInterval (cc_sending_rate c2) useful
                                rtt_fluctuation_tolerance_ratio (avg_rtt c2)
                                (sent_time + monitor_duration c2) (interval_queue c2)\<rparr>
                in Some (c3\<lparr>interval_queue :=
                              MIQ_OnPacketSent sent_time pn bytes (interval_queue c3)\<rparr>))))"

text \<open>The test of the RTT inflation fast path of \<^verbatim>\<open>OnCongestionEvent\<close>.\<close>

definition rtt_inflation_in_starting :: "CongestionController \<Rightarrow> int \<Rightarrow> bool" where
  "rtt_inflation_in_starting c avg_rtt_us =
     (mode c = STARTING \<and> \<not> empty_queue (interval_queue c)
      \<and> rtt_on_monitor_start_us (last (monitor_intervals (interval_queue c))) \<noteq> 0
      \<and> avg_rtt_us >
          trunc_to_int
            ((1 + FLAGS_max_rtt_fluctuation_tolerance_ratio_in_starting)
               * real_of_int
                   (rtt_on_monitor_start_us (last (monitor_intervals (interval_queue c))))))"

text \<open>
  The delegate the controller passes to its queue: itself. While the queue calls it, the
  controller's queue is the queue at the call.
\<close>

definition controller_delegate ::
  "UtilityInfo list \<Rightarrow> MonitorIntervalQueue \<Rightarrow> CongestionController
     \<Rightarrow> CongestionController option" where
  "controller_delegate utility_info q c = OnUtilityAvailable utility_info (c\<lparr>interval_queue := q\<rparr>)"

definition update_avg_rtt :: "QuicTime \<Rightarrow> CongestionController \<Rightarrow> CongestionController" where
  "update_avg_rtt rtt c =
     (if avg_rtt c = 0 then c\<lparr>avg_rtt := rtt\<rparr>
      else c\<lparr>avg_rtt := trunc_to_int ((real_of_int (avg_rtt c) * 3 + real_of_int rtt) / 4)\<rparr>)"

definition OnCongestionEvent ::
  "QuicTime \<Rightarrow> QuicTime \<Rightarrow> AckedPacketVector \<Rightarrow> LostPacketVector \<Rightarrow> CongestionController
     \<Rightarrow> CongestionController option" where
  "OnCongestionEvent event_time rtt acked_packets lost_packets c =
     (let avg_rtt_us = rtt;
          c1 = (if avg_rtt_us \<noteq> 0 then update_avg_rtt rtt c else c)
      in if avg_rtt_us \<noteq> 0 \<and> rtt_inflation_in_starting c1 avg_rtt_us
         then EnterProbing (c1\<lparr>interval_queue := OnRttInflationInStarting (interval_queue c1)\<rparr>)
         else
           case MIQ_OnCongestionEvent controller_delegate acked_packets lost_packets
                  avg_rtt_us event_time (interval_queue c1) c1 of
             None \<Rightarrow> None
           | Some (q, c2) \<Rightarrow> Some (c2\<lparr>interval_queue := q\<rparr>))"

section \<open>Notions used by the properties\<close>

subsection \<open>What one event attributes to an interval\<close>

text \<open>
  The bytes and the RTT samples that the two inner loops of \<^verbatim>\<open>OnCongestionEvent\<close> add
  to an interval, in closed form, and the two loops together.
\<close>

definition lost_in_range :: "LostPacketVector \<Rightarrow> MonitorInterval \<Rightarrow> int" where
  "lost_in_range lost interval =
     sum_list (map ev_bytes_lost
       (filter (\<lambda>p. IntervalContainsPacket interval (ev_packet_number p)) lost))"

definition acked_in_range :: "AckedPacketVector \<Rightarrow> MonitorInterval \<Rightarrow> int" where
  "acked_in_range acked interval =
     sum_list (map ev_bytes_acked
       (filter (\<lambda>p. IntervalContainsPacket interval (ev_packet_number p)) acked))"

definition new_samples :: "AckedPacketVector \<Rightarrow> int \<Rightarrow> MonitorInterval \<Rightarrow> PacketRttSample list" where
  "new_samples acked rtt_us interval =
     map (\<lambda>p. \<lparr>packet_number = ev_packet_number p, sample_rtt = rtt_us\<rparr>)
       (filter (\<lambda>p. IntervalContainsPacket interval (ev_packet_number p)) acked)"

definition attribute_packets ::
  "AckedPacketVector \<Rightarrow> LostPacketVector \<Rightarrow> int \<Rightarrow> MonitorInterval \<Rightarrow> MonitorInterval" where
  "attribute_packets acked lost rtt_us interval =
     apply_acked_packets acked rtt_us (apply_lost_packets lost interval)"

text \<open>
  An interval completes with invalid utility at an event when it is useful, is not yet
  utility-available as the event starts, becomes so by the packets of the event, and has
  one send time only. \<open>after_event\<close> is the interval once the event has attributed its
  packets; \<open>event_written\<close> lists what the interval loop can leave in place of an
  interval.
\<close>

definition completes_with_invalid_utility ::
  "AckedPacketVector \<Rightarrow> LostPacketVector \<Rightarrow> int \<Rightarrow> QuicTime \<Rightarrow> MonitorInterval \<Rightarrow> bool" where
  "completes_with_invalid_utility acked lost rtt_us event_time interval =
     (is_useful interval \<and> \<not> IsUtilityAvailable interval event_time
      \<and> IsUtilityAvailable (attribute_packets acked lost rtt_us interval) event_time
      \<and> last_packet_sent_time interval = first_packet_sent_time interval)"

definition after_event ::
  "AckedPacketVector \<Rightarrow> LostPacketVector \<Rightarrow> int \<Rightarrow> QuicTime \<Rightarrow> MonitorInterval \<Rightarrow> MonitorInterval" where
  "after_event acked lost rtt_us event_time interval =
     (if is_useful interval \<and> \<not> IsUtilityAvailable interval event_time
      then attribute_packets acked lost rtt_us interval else interval)"

definition event_written ::
  "AckedPacketVector \<Rightarrow> LostPacketVector \<Rightarrow> int \<Rightarrow> MonitorInterval \<Rightarrow> MonitorInterval \<Rightarrow> bool" where
  "event_written acked lost rtt_us interval i' =
     (i' = interval
      \<or> i' = attribute_packets acked lost rtt_us interval
      \<or> i' = (attribute_packets acked lost rtt_us interval)\<lparr>rtt_on_monitor_end_us := rtt_us\<rparr>
      \<or> (\<exists>u. i' = (attribute_packets acked lost rtt_us interval)
                      \<lparr>rtt_on_monitor_end_us := rtt_us, utility := u\<rparr>))"

subsection \<open>Deliveries\<close>

text \<open>
  A delegate that only records its calls: each batch with the queue as it is at the call.
  Then the condition under which a batch is delivered, as the specification words it
  (every useful interval utility-available once the event has attributed its packets,
  and none with a single send time), and the condition that every useful interval that
  is utility-available as the event starts has two send times.
\<close>

definition log_delivery ::
  "UtilityInfo list \<Rightarrow> MonitorIntervalQueue \<Rightarrow> (UtilityInfo list \<times> MonitorIntervalQueue) list
     \<Rightarrow> (UtilityInfo list \<times> MonitorIntervalQueue) list option" where
  "log_delivery batch q calls = Some (calls @ [(batch, q)])"



subsection \<open>Example states\<close>

text \<open>
  A controller built with an initial RTT of 10000 and a window of 10 packets sends
  packet 0 at time 0 (a first interval, not useful, as no RTT is known), learns an RTT of
  40 at time 100, and sends packet 1 at time 200, which opens a useful interval that ends
  at 260. \<open>one_packet_controller\<close> is the controller then, \<open>one_packet_queue\<close> its
  queue. In \<open>two_packet_queue\<close> the useful interval holds packet 2 as well, sent at 210.
  In \<open>acked_early_queue\<close> packet 1 has been acked at time 240, before the interval ends.
\<close>

definition ack_of_packet_1 :: CongestionEvent where
  "ack_of_packet_1 = \<lparr>ev_packet_number = 1, ev_bytes_acked = 1000, ev_bytes_lost = 0, ev_time = 0\<rparr>"


definition first_interval :: MonitorInterval where
  "first_interval = record_sent_packet 0 0 1000 (new_MonitorInterval 11200000 False (3 / 10) 0 0)"

definition one_packet_interval :: MonitorInterval where
  "one_packet_interval =
     record_sent_packet 200 1 1000 (new_MonitorInterval 11200000 True (3 / 10) 40 260)"

definition one_packet_queue :: MonitorIntervalQueue where
  "one_packet_queue =
     \<lparr>monitor_intervals = [first_interval, one_packet_interval],
      num_useful_intervals = 1, num_available_intervals = 0\<rparr>"



definition one_packet_controller :: CongestionController where
  "one_packet_controller =
     (new_CongestionController 10000 10 100)
       \<lparr>monitor_duration := 60, avg_rtt := 40, interval_queue := one_packet_queue\<rparr>"

subsection \<open>RTT samples\<close>

text \<open>
  \<open>extends_with_rtt rtt interval i'\<close>: the samples of \<open>i'\<close> are the samples of
  \<open>interval\<close> followed by samples that all carry \<open>rtt\<close>, and the RTT at the end of
  \<open>i'\<close> is the one of \<open>interval\<close> or \<open>rtt\<close>. \<open>acked_with_rtt_50\<close> is
  \<open>one_packet_controller\<close> after the ack of packet 1 at time 240 with an RTT of 50.
\<close>

definition extends_with_rtt :: "int \<Rightarrow> MonitorInterval \<Rightarrow> MonitorInterval \<Rightarrow> bool" where
  "extends_with_rtt rtt interval i' =
     ((\<exists>new. packet_rtt_samples i' = packet_rtt_samples interval @ new
             \<and> list_all (\<lambda>s. sample_rtt s = rtt) new)
      \<and> (rtt_on_monitor_end_us i' = rtt_on_monitor_end_us interval
         \<or> rtt_on_monitor_end_us i' = rtt))"

definition acked_with_rtt_50 :: CongestionController where
  "acked_with_rtt_50 =
     one_packet_controller
       \<lparr>avg_rtt := 42,
        interval_queue :=
          \<lparr>monitor_intervals =
             [first_interval,
              one_packet_interval
                \<lparr>bytes_acked := 1000,
                 packet_rtt_samples := [\<lparr>packet_number = 1, sample_rtt = 50\<rparr>]\<rparr>],
           num_useful_intervals = 1, num_available_intervals = 0\<rparr>\<rparr>"

subsection \<open>Sequences of queue operations and the byte counters\<close>

text \<open>
  The four operations of the queue as one type, one step and a run of steps.
  \<open>bytes_accounted\<close> is the invariant on the byte counters of an interval. An event is
  \<open>within_outstanding\<close> for an interval when the bytes it acks and loses in the
  interval's packet range are no more than the bytes of the interval still outstanding.
  An operation is admissible when it is a sent packet of no negative size, or an event
  within the outstanding bytes of every interval the loop can update, or one of the two
  other operations. \<open>once_acked_queue\<close> and \<open>twice_acked_queue\<close> hold the one
  packet interval after one and after two acks of packet 1.
\<close>

datatype queue_op =
    Op_EnqueueNewMonitorInterval QuicBandwidth bool real int QuicTime
  | Op_OnPacketSent QuicTime QuicPacketNumber QuicByteCount
  | Op_OnCongestionEvent AckedPacketVector LostPacketVector int QuicTime
  | Op_OnRttInflationInStarting

fun apply_queue_op ::
  "(UtilityInfo list \<Rightarrow> MonitorIntervalQueue \<Rightarrow> 'd \<Rightarrow> 'd option) \<Rightarrow> queue_op
     \<Rightarrow> MonitorIntervalQueue \<times> 'd \<Rightarrow> (MonitorIntervalQueue \<times> 'd) option" where
  "apply_queue_op delegate (Op_EnqueueNewMonitorInterval rate useful tolerance rtt_us endt) (q, d) =
     Some (EnqueueNewMonitorInterval rate useful tolerance rtt_us endt q, d)"
| "apply_queue_op delegate (Op_OnPacketSent sent_time pn bytes) (q, d) =
     Some (MIQ_OnPacketSent sent_time pn bytes q, d)"
| "apply_queue_op delegate (Op_OnCongestionEvent acked lost rtt_us event_time) (q, d) =
     MIQ_OnCongestionEvent delegate acked lost rtt_us event_time q d"
| "apply_queue_op delegate Op_OnRttInflationInStarting (q, d) =
     Some (OnRttInflationInStarting q, d)"

fun run_queue_ops ::
  "(UtilityInfo list \<Rightarrow> MonitorIntervalQueue \<Rightarrow> 'd \<Rightarrow> 'd option) \<Rightarrow> queue_op list
     \<Rightarrow> MonitorIntervalQueue \<times> 'd \<Rightarrow> (MonitorIntervalQueue \<times> 'd) option" where
  "run_queue_ops delegate [] s = Some s"
| "run_queue_ops delegate (operation # ops) s =
     (case apply_queue_op delegate operation s of
        None \<Rightarrow> None
      | Some s' \<Rightarrow> run_queue_ops delegate ops s')"

definition bytes_accounted :: "MonitorInterval \<Rightarrow> bool" where
  "bytes_accounted interval =
     (bytes_acked interval + bytes_lost interval \<le> bytes_sent interval)"






subsection \<open>Calls of the controller and its modes\<close>

text \<open>
  The arrows of the mode graph. The two calls of the transport as one type, one call and
  the states a sequence of calls goes through, the first state included; the last
  argument of a sent packet is what \<^verbatim>\<open>rand()\<close> returns if the call reads it.
  \<open>same_but_gradient_state\<close> lists what \<^verbatim>\<open>ComputeRateChange\<close> leaves alone.
  \<open>example_calls\<close> are the three calls that lead to \<open>one_packet_controller\<close>, then
  an event with an RTT of 80.
\<close>

fun mode_step_allowed :: "SenderMode \<Rightarrow> SenderMode \<Rightarrow> bool" where
  "mode_step_allowed STARTING m = (m = STARTING \<or> m = PROBING)"
| "mode_step_allowed PROBING m = (m = PROBING \<or> m = DECISION_MADE)"
| "mode_step_allowed DECISION_MADE m = (m = DECISION_MADE \<or> m = PROBING)"

datatype api_call =
    Call_OnPacketSent QuicTime QuicPacketNumber QuicByteCount nat
  | Call_OnCongestionEvent QuicTime QuicTime AckedPacketVector LostPacketVector

fun api_step :: "api_call \<Rightarrow> CongestionController \<Rightarrow> CongestionController option" where
  "api_step (Call_OnPacketSent sent_time pn bytes rand_value) c =
     OnPacketSent sent_time pn bytes rand_value c"
| "api_step (Call_OnCongestionEvent event_time rtt acked lost) c =
     OnCongestionEvent event_time rtt acked lost c"

fun api_trace :: "api_call list \<Rightarrow> CongestionController \<Rightarrow> CongestionController list option" where
  "api_trace [] c = Some [c]"
| "api_trace (call # calls) c =
     (case api_step call c of
        None \<Rightarrow> None
      | Some c' \<Rightarrow> map_option ((#) c) (api_trace calls c'))"

definition same_but_gradient_state :: "CongestionController \<Rightarrow> CongestionController \<Rightarrow> bool" where
  "same_but_gradient_state c c' =
     (mode c' = mode c \<and> cc_sending_rate c' = cc_sending_rate c
      \<and> latest_utility_info c' = latest_utility_info c \<and> rounds c' = rounds c
      \<and> direction c' = direction c \<and> interval_queue c' = interval_queue c
      \<and> previous_change c' = previous_change c)"

definition example_calls :: "api_call list" where
  "example_calls =
     [Call_OnPacketSent 0 0 1000 0, Call_OnCongestionEvent 100 40 [] [],
      Call_OnPacketSent 200 1 1000 0, Call_OnCongestionEvent 240 80 [] []]"

subsection \<open>The gradient window\<close>

text \<open>
  With one sample per window the average is the sample: the window is empty or holds the
  average. The constructor and \<^verbatim>\<open>UpdateAverageGradient\<close> leave it so.
\<close>

definition gradient_window_consistent :: "CongestionController \<Rightarrow> bool" where
  "gradient_window_consistent c =
     (gradient_samples c = [] \<or> gradient_samples c = [avg_gradient c])"

subsection \<open>A controller in DECISION_MADE\<close>

text \<open>
  A controller that has decided to lower its rate, at 2200000 bits per second, a little
  above the least rate, with the utility 2 of a sample of rate 2100000 as the latest.
\<close>

definition deciding_controller :: CongestionController where
  "deciding_controller =
     (new_CongestionController 10000 10 100)
       \<lparr>mode := DECISION_MADE, cc_sending_rate := 2200000,
        latest_utility_info := new_UtilityInfo 2100000 2, previous_change := - 1\<rparr>"

subsection \<open>The utility as the specification words it\<close>





subsection \<open>The counter of useful intervals\<close>

text \<open>
  The counter \<open>num_useful_intervals\<close> is the number of useful intervals in the queue:
  this holds of the empty queue and every operation of the queue keeps it.
\<close>

definition useful_counted :: "MonitorIntervalQueue \<Rightarrow> bool" where
  "useful_counted q =
     (num_useful_intervals q = length (filter is_useful (monitor_intervals q)))"

section \<open>Properties\<close>

lemmas controller_consts =
  kMinSendingRate_def kMinimumRateChange_def kMegabit_def kDefaultTCPMSS_def kBitsPerByte_def
  kNumMicrosPerSecond_def trunc_to_int_def

subsection \<open>The loops of the queue\<close>

lemma contains_bytes_lost_update [simp]:
  "IntervalContainsPacket (interval\<lparr>bytes_lost := b\<rparr>) pn = IntervalContainsPacket interval pn"
  by (simp add: IntervalContainsPacket_def)

lemma contains_acked_update [simp]:
  "IntervalContainsPacket (interval\<lparr>bytes_acked := b, packet_rtt_samples := s\<rparr>) pn
     = IntervalContainsPacket interval pn"
  by (simp add: IntervalContainsPacket_def)

lemma apply_lost_packets_eq:
  "apply_lost_packets lost interval
     = interval\<lparr>bytes_lost := bytes_lost interval + lost_in_range lost interval\<rparr>"
proof (induction lost arbitrary: interval)
  case Nil
  show ?case by (simp add: lost_in_range_def)
next
  case (Cons p ps)
  show ?case by (simp add: Cons.IH lost_in_range_def)
qed

lemma apply_acked_packets_eq:
  "apply_acked_packets acked rtt_us interval
     = interval\<lparr>bytes_acked := bytes_acked interval + acked_in_range acked interval,
                packet_rtt_samples :=
                  packet_rtt_samples interval @ new_samples acked rtt_us interval\<rparr>"
proof (induction acked arbitrary: interval)
  case Nil
  show ?case by (simp add: acked_in_range_def new_samples_def)
next
  case (Cons p ps)
  show ?case by (simp add: Cons.IH acked_in_range_def new_samples_def)
qed

lemma contains_lost_applied [simp]:
  "IntervalContainsPacket (apply_lost_packets lost interval) pn = IntervalContainsPacket interval pn"
  by (simp add: apply_lost_packets_eq)

lemma attribute_packets_eq:
  "attribute_packets acked lost rtt_us interval
     = interval\<lparr>bytes_lost := bytes_lost interval + lost_in_range lost interval,
                bytes_acked := bytes_acked interval + acked_in_range acked interval,
                packet_rtt_samples :=
                  packet_rtt_samples interval @ new_samples acked rtt_us interval\<rparr>"
  unfolding attribute_packets_def
  by (subst apply_acked_packets_eq)
     (simp add: apply_lost_packets_eq acked_in_range_def new_samples_def)

lemma CalculateUtility_None_iff:
  "CalculateUtility interval = None
     \<longleftrightarrow> last_packet_sent_time interval = first_packet_sent_time interval"
  by (simp add: CalculateUtility_def Let_def)

lemma CalculateUtility_Some:
  "CalculateUtility interval = Some i' \<Longrightarrow> \<exists>u. i' = interval\<lparr>utility := u\<rparr>"
  by (auto simp: CalculateUtility_def Let_def split: if_splits)

lemma fst_keep_interval [simp]: "fst (keep_interval interval r) = interval # fst r"
  by (simp add: keep_interval_def)

lemma snd_keep_interval [simp]: "snd (keep_interval interval r) = snd r"
  by (simp add: keep_interval_def)

lemma sent_times_attribute [simp]:
  "last_packet_sent_time (attribute_packets acked lost rtt_us interval) = last_packet_sent_time interval"
  "first_packet_sent_time (attribute_packets acked lost rtt_us interval) = first_packet_sent_time interval"
  "is_useful (attribute_packets acked lost rtt_us interval) = is_useful interval"
  "sending_rate (attribute_packets acked lost rtt_us interval) = sending_rate interval"
  "bytes_sent (attribute_packets acked lost rtt_us interval) = bytes_sent interval"
  "end_time (attribute_packets acked lost rtt_us interval) = end_time interval"
  by (simp_all add: attribute_packets_eq)

lemma scan_intervals_Cons:
  "scan_intervals acked lost rtt_us event_time (interval # rest) n =
     (if \<not> is_useful interval
      then keep_interval interval (scan_intervals acked lost rtt_us event_time rest n)
      else if IsUtilityAvailable interval event_time
      then keep_interval interval (scan_intervals acked lost rtt_us event_time rest (n + 1))
      else if IsUtilityAvailable (attribute_packets acked lost rtt_us interval) event_time
      then (case CalculateUtility
                   ((attribute_packets acked lost rtt_us interval)
                      \<lparr>rtt_on_monitor_end_us := rtt_us\<rparr>) of
              None \<Rightarrow> ((attribute_packets acked lost rtt_us interval)
                          \<lparr>rtt_on_monitor_end_us := rtt_us\<rparr> # rest, n, True)
            | Some i4 \<Rightarrow>
                keep_interval i4 (scan_intervals acked lost rtt_us event_time rest (n + 1)))
      else keep_interval (attribute_packets acked lost rtt_us interval)
             (scan_intervals acked lost rtt_us event_time rest n))"
  by (simp add: attribute_packets_def Let_def split: option.splits)

lemma CalculateUtility_Some_valid:
  "CalculateUtility interval = Some i'
     \<Longrightarrow> last_packet_sent_time interval \<noteq> first_packet_sent_time interval"
  by (auto simp: CalculateUtility_def Let_def split: if_splits)

lemma scan_flag:
  "snd (snd (scan_intervals acked lost rtt_us event_time q n))
     \<longleftrightarrow> (\<exists>interval\<in>set q. completes_with_invalid_utility acked lost rtt_us event_time interval)"
proof (induction q arbitrary: n)
  case Nil
  show ?case by simp
next
  case (Cons interval rest)
  show ?case
    unfolding scan_intervals_Cons
    by (auto simp: Cons.IH completes_with_invalid_utility_def CalculateUtility_None_iff
        split: option.splits dest: CalculateUtility_Some_valid)
qed

lemma scan_count:
  "\<not> snd (snd (scan_intervals acked lost rtt_us event_time q n)) \<Longrightarrow>
   fst (snd (scan_intervals acked lost rtt_us event_time q n))
     = n + length (filter (\<lambda>interval. is_useful interval
             \<and> IsUtilityAvailable (after_event acked lost rtt_us event_time interval) event_time) q)"
proof (induction q arbitrary: n)
  case Nil
  show ?case by simp
next
  case (Cons interval rest)
  from Cons.prems show ?case
    unfolding scan_intervals_Cons
    by (auto simp: Cons.IH after_event_def split: option.splits if_splits)
qed

lemma event_written_cases:
  "event_written acked lost rtt_us interval interval"
  "event_written acked lost rtt_us interval (attribute_packets acked lost rtt_us interval)"
  "event_written acked lost rtt_us interval
     ((attribute_packets acked lost rtt_us interval)\<lparr>rtt_on_monitor_end_us := rtt_us\<rparr>)"
  "CalculateUtility
       ((attribute_packets acked lost rtt_us interval)\<lparr>rtt_on_monitor_end_us := rtt_us\<rparr>)
     = Some i4 \<Longrightarrow> event_written acked lost rtt_us interval i4"
  by (auto simp: event_written_def dest: CalculateUtility_Some)

lemma scan_written:
  "list_all2 (event_written acked lost rtt_us) q
     (fst (scan_intervals acked lost rtt_us event_time q n))"
proof (induction q arbitrary: n)
  case Nil
  show ?case by simp
next
  case (Cons interval rest)
  have same: "list_all2 (event_written acked lost rtt_us) rest rest"
    by (simp add: list_all2_same event_written_cases(1))
  show ?case
    unfolding scan_intervals_Cons
    by (auto simp: Cons.IH same event_written_cases split: option.splits)
qed

lemma remove_useful_all:
  "\<exists>rest pre. remove_useful q (length (filter is_useful q)) = Some rest
      \<and> q = pre @ rest \<and> filter is_useful rest = []"
proof (induction q)
  case Nil
  show ?case by simp
next
  case (Cons interval q)
  then obtain rest pre where r: "remove_useful q (length (filter is_useful q)) = Some rest"
    "q = pre @ rest" "filter is_useful rest = []" by blast
  show ?case
  proof (cases "is_useful interval")
    case True
    with r have "remove_useful (interval # q) (length (filter is_useful (interval # q))) = Some rest"
      "interval # q = (interval # pre) @ rest" by simp_all
    with r(3) show ?thesis by blast
  next
    case False
    show ?thesis
    proof (cases "length (filter is_useful q)")
      case 0
      with False have "remove_useful (interval # q) (length (filter is_useful (interval # q)))
          = Some (interval # q)" "interval # q = [] @ (interval # q)"
        "filter is_useful (interval # q) = []" by simp_all
      then show ?thesis by blast
    next
      case (Suc m)
      with False r have "remove_useful (interval # q) (length (filter is_useful (interval # q)))
          = Some rest" "interval # q = (interval # pre) @ rest" by simp_all
      with r(3) show ?thesis by blast
    qed
  qed
qed

lemma remove_useful_suffix:
  "remove_useful q n = Some rest \<Longrightarrow> \<exists>pre. q = pre @ rest"
proof (induction q n arbitrary: rest rule: remove_useful.induct)
  case (1 intervals)
  then show ?case by simp
next
  case (2 n)
  then show ?case by simp
next
  case (3 interval rest' n)
  then show ?case by (auto split: if_splits intro: append_Cons [symmetric])
qed

lemma list_all2_map_filter:
  assumes "list_all2 R xs ys" and "\<And>x y. R x y \<Longrightarrow> P y = P x \<and> f y = f x"
  shows "map f (filter P ys) = map f (filter P xs)"
  using assms(1)
proof (induction rule: list_all2_induct)
  case Nil
  show ?case by simp
next
  case (Cons x xs y ys)
  with assms(2) [OF Cons.hyps(1)] show ?case by simp
qed

lemma event_written_keeps:
  "event_written acked lost rtt_us interval i' \<Longrightarrow>
     is_useful i' = is_useful interval \<and> sending_rate i' = sending_rate interval"
  by (auto simp: event_written_def)

lemma scan_useful:
  "map is_useful (filter is_useful (fst (scan_intervals acked lost rtt_us event_time q n)))
     = map is_useful (filter is_useful q)"
  "map sending_rate (filter is_useful (fst (scan_intervals acked lost rtt_us event_time q n)))
     = map sending_rate (filter is_useful q)"
  using list_all2_map_filter [OF scan_written, where P = is_useful and f = is_useful]
    list_all2_map_filter [OF scan_written, where P = is_useful and f = sending_rate]
  by (simp_all add: event_written_keeps)

lemma scan_useful_length:
  "length (filter is_useful (fst (scan_intervals acked lost rtt_us event_time q n)))
     = length (filter is_useful q)"
  using scan_useful(1) [of acked lost rtt_us event_time q n] by (metis length_map)

lemma useful_count_positive:
  "interval \<in> set q \<Longrightarrow> is_useful interval \<Longrightarrow> 0 < length (filter is_useful q)"
  by (simp add: filter_empty_conv) blast

lemma MIQ_invalid_utility:
  assumes inv: "\<exists>interval\<in>set (monitor_intervals q).
             completes_with_invalid_utility acked lost rtt_us event_time interval"
    and cnt: "num_useful_intervals q = length (filter is_useful (monitor_intervals q))"
  shows "\<exists>q'. MIQ_OnCongestionEvent delegate acked lost rtt_us event_time q d = Some (q', d)
           \<and> filter is_useful (monitor_intervals q') = []
           \<and> num_useful_intervals q' = 0 \<and> num_available_intervals q' = 0"
proof -
  let ?r = "scan_intervals acked lost rtt_us event_time (monitor_intervals q) 0"
  from inv have pos: "0 < num_useful_intervals q"
    unfolding cnt completes_with_invalid_utility_def
    by (auto simp: filter_empty_conv)
  from inv have flag: "snd (snd ?r)" by (simp add: scan_flag)
  have "num_useful_intervals q = length (filter is_useful (fst ?r))"
    by (simp add: cnt scan_useful_length)
  with remove_useful_all [of "fst ?r"]
  obtain rest where rest: "remove_useful (fst ?r) (num_useful_intervals q) = Some rest"
    "filter is_useful rest = []" by auto
  from pos flag rest show ?thesis
    by (simp add: MIQ_OnCongestionEvent_def Let_def)
qed

lemma filter_conj_length:
  "length (filter (\<lambda>x. P x \<and> Q x) xs) \<le> length (filter P xs)"
  "length (filter (\<lambda>x. P x \<and> Q x) xs) = length (filter P xs) \<longleftrightarrow> (\<forall>x\<in>set xs. P x \<longrightarrow> Q x)"
proof -
  show le: "length (filter (\<lambda>x. P x \<and> Q x) xs) \<le> length (filter P xs)" for xs
    by (induction xs) auto
  show "length (filter (\<lambda>x. P x \<and> Q x) xs) = length (filter P xs) \<longleftrightarrow> (\<forall>x\<in>set xs. P x \<longrightarrow> Q x)"
  proof (induction xs)
    case Nil
    show ?case by simp
  next
    case (Cons x xs)
    from le [of xs] Cons show ?case by auto
  qed
qed

lemma MIQ_valid_utilities:
  assumes cnt: "num_useful_intervals q = length (filter is_useful (monitor_intervals q))"
    and pos: "0 < num_useful_intervals q"
    and valid: "\<not> (\<exists>interval\<in>set (monitor_intervals q).
             completes_with_invalid_utility acked lost rtt_us event_time interval)"
  shows "\<exists>ivs avail rest.
           scan_intervals acked lost rtt_us event_time (monitor_intervals q) 0 = (ivs, avail, False)
         \<and> remove_useful ivs (num_useful_intervals q) = Some rest
         \<and> filter is_useful rest = []
         \<and> MIQ_OnCongestionEvent delegate acked lost rtt_us event_time q d =
             (if \<forall>interval\<in>set (monitor_intervals q). is_useful interval \<longrightarrow>
                   IsUtilityAvailable (after_event acked lost rtt_us event_time interval) event_time
              then (case delegate (utility_batch ivs)
                           (q\<lparr>monitor_intervals := ivs, num_available_intervals := avail\<rparr>) d of
                      None \<Rightarrow> None
                    | Some d' \<Rightarrow>
                        Some (q\<lparr>monitor_intervals := rest, num_useful_intervals := 0,
                                num_available_intervals := 0\<rparr>, d'))
              else Some (q\<lparr>monitor_intervals := ivs, num_available_intervals := avail\<rparr>, d))"
proof -
  let ?r = "scan_intervals acked lost rtt_us event_time (monitor_intervals q) 0"
  let ?A = "\<lambda>interval. IsUtilityAvailable (after_event acked lost rtt_us event_time interval) event_time"
  from valid have flag: "\<not> snd (snd ?r)" by (simp add: scan_flag)
  then have r: "?r = (fst ?r, fst (snd ?r), False)"
    by (metis prod.collapse)
  from scan_count [OF flag]
  have avail: "fst (snd ?r) = length (filter (\<lambda>i. is_useful i \<and> ?A i) (monitor_intervals q))"
    by simp
  have "num_useful_intervals q = length (filter is_useful (fst ?r))"
    by (simp add: cnt scan_useful_length)
  with remove_useful_all [of "fst ?r"]
  obtain rest where rest: "remove_useful (fst ?r) (num_useful_intervals q) = Some rest"
    "filter is_useful rest = []" by auto
  have all_iff: "(\<forall>i\<in>set (monitor_intervals q). is_useful i \<longrightarrow> ?A i)
      \<longleftrightarrow> \<not> fst (snd ?r) < num_useful_intervals q"
    using filter_conj_length [of is_useful ?A "monitor_intervals q"]
    unfolding avail cnt by auto
  have "MIQ_OnCongestionEvent delegate acked lost rtt_us event_time q d =
             (if \<forall>interval\<in>set (monitor_intervals q). is_useful interval \<longrightarrow> ?A interval
              then (case delegate (utility_batch (fst ?r))
                           (q\<lparr>monitor_intervals := fst ?r, num_available_intervals := fst (snd ?r)\<rparr>) d of
                      None \<Rightarrow> None
                    | Some d' \<Rightarrow>
                        Some (q\<lparr>monitor_intervals := rest, num_useful_intervals := 0,
                                num_available_intervals := 0\<rparr>, d'))
              else Some (q\<lparr>monitor_intervals := fst ?r, num_available_intervals := fst (snd ?r)\<rparr>, d))"
    unfolding all_iff using pos flag rest(1)
    by (simp add: MIQ_OnCongestionEvent_def Let_def split: option.splits)
  with r rest show ?thesis by blast
qed


lemma interval_queue_update_avg_rtt [simp]:
  "interval_queue (update_avg_rtt rtt c) = interval_queue c"
  "mode (update_avg_rtt rtt c) = mode c"
  "cc_sending_rate (update_avg_rtt rtt c) = cc_sending_rate c"
  "latest_utility_info (update_avg_rtt rtt c) = latest_utility_info c"
  "rounds (update_avg_rtt rtt c) = rounds c"
  by (simp_all add: update_avg_rtt_def)

lemma OnCongestionEvent_queue:
  assumes "\<not> (rtt \<noteq> 0 \<and> rtt_inflation_in_starting (update_avg_rtt rtt c) rtt)"
  shows "OnCongestionEvent event_time rtt acked lost c =
           (case MIQ_OnCongestionEvent controller_delegate acked lost rtt event_time
                   (interval_queue c) (if rtt \<noteq> 0 then update_avg_rtt rtt c else c) of
              None \<Rightarrow> None
            | Some (q, c2) \<Rightarrow> Some (c2\<lparr>interval_queue := q\<rparr>))"
proof (cases "rtt = 0")
  case True
  then show ?thesis unfolding OnCongestionEvent_def Let_def by simp
next
  case False
  with assms have "\<not> rtt_inflation_in_starting (update_avg_rtt rtt c) rtt" by simp
  with False show ?thesis unfolding OnCongestionEvent_def Let_def by simp
qed

subsection \<open>The example states\<close>

lemmas example_defs =
  ack_of_packet_1_def first_interval_def one_packet_interval_def one_packet_queue_def
  one_packet_controller_def new_MonitorInterval_def record_sent_packet_def
  new_CongestionController_def new_MonitorIntervalQueue_def new_UtilityInfo_def

lemmas queue_eval =
  IsUtilityAvailable_def IntervalContainsPacket_def keep_interval_def utility_batch_def
  log_delivery_def CalculateUtility_None_iff

text \<open>The three calls above lead from the constructor to \<open>one_packet_controller\<close>.\<close>

lemma one_packet_controller_reached:
  "Option.bind
     (Option.bind (OnPacketSent 0 0 1000 0 (new_CongestionController 10000 10 100))
        (OnCongestionEvent 100 40 [] []))
     (OnPacketSent 200 1 1000 0)
   = Some one_packet_controller"
  by (simp add: OnPacketSent_def OnCongestionEvent_def MaybeSetSendingRate_def
      ComputeMonitorDuration_def CreateUsefulInterval_def EnqueueNewMonitorInterval_def
      MIQ_OnPacketSent_def MIQ_OnCongestionEvent_def rtt_inflation_in_starting_def
      update_avg_rtt_def empty_queue_def current_def example_defs controller_consts
      kMinimumPacketsPerInterval_def
      FLAGS_max_rtt_fluctuation_tolerance_ratio_in_starting_def Let_def)

subsection \<open>What an event writes\<close>

lemma new_samples_rtt: "list_all (\<lambda>s. sample_rtt s = rtt_us) (new_samples acked rtt_us interval)"
  by (simp add: new_samples_def list_all_iff)

lemma extends_with_rtt_refl: "extends_with_rtt rtt interval interval"
  by (simp add: extends_with_rtt_def)

lemma event_written_extends:
  "event_written acked lost rtt_us interval i' \<Longrightarrow> extends_with_rtt rtt_us interval i'"
  unfolding event_written_def extends_with_rtt_def
  using new_samples_rtt [of rtt_us acked interval]
  by (auto simp: attribute_packets_eq)

lemma scan_extends:
  "list_all2 (extends_with_rtt rtt_us) q
     (fst (scan_intervals acked lost rtt_us event_time q n))"
  using scan_written [of acked lost rtt_us q event_time n]
  by (rule list_all2_mono) (rule event_written_extends)

lemma list_all2_source:
  "list_all2 R xs ys \<Longrightarrow> y \<in> set ys \<Longrightarrow> \<exists>x\<in>set xs. R x y"
proof (induction rule: list_all2_induct)
  case Nil
  then show ?case by simp
next
  case (Cons x xs y' ys)
  then show ?case by auto
qed

lemma MIQ_result_intervals:
  assumes "MIQ_OnCongestionEvent delegate acked lost rtt_us event_time q d = Some (q', d')"
  shows "set (monitor_intervals q')
           \<subseteq> set (monitor_intervals q)
             \<union> set (fst (scan_intervals acked lost rtt_us event_time (monitor_intervals q) 0))"
proof -
  have sub: "x \<in> set ivs" if "remove_useful ivs n = Some rest" "x \<in> set rest" for ivs n rest x
    using remove_useful_suffix [OF that(1)] that(2) by auto
  from assms show ?thesis
    by (auto simp: MIQ_OnCongestionEvent_def Let_def split: if_splits option.splits
        dest: sub)
qed

lemma EnterProbing_queue:
  "EnterProbing c = Some c' \<Longrightarrow> interval_queue c' = interval_queue c"
  by (auto simp: EnterProbing_def split: SenderMode.splits option.splits if_splits)

lemma OnCongestionEvent_fast_path:
  assumes "rtt \<noteq> 0" and "rtt_inflation_in_starting (update_avg_rtt rtt c) rtt"
  shows "OnCongestionEvent event_time rtt acked lost c =
           EnterProbing ((update_avg_rtt rtt c)
             \<lparr>interval_queue := OnRttInflationInStarting (interval_queue c)\<rparr>)"
  using assms unfolding OnCongestionEvent_def Let_def by simp

subsection \<open>The byte counters\<close>


lemma bytes_accounted_updates [simp]:
  "bytes_accounted (interval\<lparr>rtt_on_monitor_end_us := e\<rparr>) = bytes_accounted interval"
  "bytes_accounted (interval\<lparr>utility := u\<rparr>) = bytes_accounted interval"
  by (simp_all add: bytes_accounted_def)







subsection \<open>The counter of useful intervals\<close>

lemma record_sent_packet_useful [simp]:
  "is_useful (record_sent_packet sent_time pn bytes interval) = is_useful interval"
  by (simp add: record_sent_packet_def Let_def)

lemma MIQ_OnPacketSent_counted:
  assumes "useful_counted q"
  shows "useful_counted (MIQ_OnPacketSent sent_time pn bytes q)"
proof (cases "monitor_intervals q = []")
  case True
  with assms show ?thesis by (simp add: MIQ_OnPacketSent_def)
next
  case False
  then have "butlast (monitor_intervals q) @ [last (monitor_intervals q)] = monitor_intervals q"
    by (rule append_butlast_last_id)
  from arg_cong [OF this, of "\<lambda>xs. length (filter is_useful xs)"] have "length (filter is_useful (butlast (monitor_intervals q)))
      + (if is_useful (last (monitor_intervals q)) then 1 else 0)
      = length (filter is_useful (monitor_intervals q))"
    by (cases "is_useful (last (monitor_intervals q))") simp_all
  with assms False show ?thesis
    by (auto simp: MIQ_OnPacketSent_def useful_counted_def split: if_splits)
qed

lemma MIQ_OnCongestionEvent_counted:
  assumes "MIQ_OnCongestionEvent delegate acked lost rtt_us event_time q d = Some (q', d')"
    and "useful_counted q"
  shows "useful_counted q'"
proof (cases "num_useful_intervals q = 0")
  case True
  with assms show ?thesis
    by (auto simp: MIQ_OnCongestionEvent_def useful_counted_def)
next
  case False
  then have pos: "0 < num_useful_intervals q" by simp
  from assms(2) have cnt: "num_useful_intervals q = length (filter is_useful (monitor_intervals q))"
    by (simp add: useful_counted_def)
  show ?thesis
  proof (cases "\<exists>interval\<in>set (monitor_intervals q).
             completes_with_invalid_utility acked lost rtt_us event_time interval")
    case True
    from MIQ_invalid_utility [OF True cnt, of delegate d] obtain q2 where
      "MIQ_OnCongestionEvent delegate acked lost rtt_us event_time q d = Some (q2, d)"
      "filter is_useful (monitor_intervals q2) = []" "num_useful_intervals q2 = 0"
      by (elim exE conjE)
    with assms(1) show ?thesis by (simp add: useful_counted_def)
  next
    case False
    from MIQ_valid_utilities [OF cnt pos False, of delegate d]
    obtain ivs avail rest where
      scan: "scan_intervals acked lost rtt_us event_time (monitor_intervals q) 0
               = (ivs, avail, False)"
      and rest: "filter is_useful rest = []"
      and res: "MIQ_OnCongestionEvent delegate acked lost rtt_us event_time q d =
             (if \<forall>interval\<in>set (monitor_intervals q). is_useful interval \<longrightarrow>
                   IsUtilityAvailable (after_event acked lost rtt_us event_time interval) event_time
              then (case delegate (utility_batch ivs)
                           (q\<lparr>monitor_intervals := ivs, num_available_intervals := avail\<rparr>) d of
                      None \<Rightarrow> None
                    | Some d' \<Rightarrow>
                        Some (q\<lparr>monitor_intervals := rest, num_useful_intervals := 0,
                                num_available_intervals := 0\<rparr>, d'))
              else Some (q\<lparr>monitor_intervals := ivs, num_available_intervals := avail\<rparr>, d))"
      by (elim exE conjE)
    have len: "length (filter is_useful ivs) = length (filter is_useful (monitor_intervals q))"
      using scan_useful_length [of acked lost rtt_us event_time "monitor_intervals q" 0]
      by (simp add: scan)
    define all_available where "all_available \<longleftrightarrow>
      (\<forall>interval\<in>set (monitor_intervals q). is_useful interval \<longrightarrow>
          IsUtilityAvailable (after_event acked lost rtt_us event_time interval) event_time)"
    show ?thesis
    proof (cases all_available)
      case True
      with res assms(1) obtain d2 where
        "q' = q\<lparr>monitor_intervals := rest, num_useful_intervals := 0,
                  num_available_intervals := 0\<rparr>"
        unfolding all_available_def [symmetric] by (auto split: option.splits)
      with rest show ?thesis by (simp add: useful_counted_def)
    next
      case False
      with res assms(1)
      have "q' = q\<lparr>monitor_intervals := ivs, num_available_intervals := avail\<rparr>"
        unfolding all_available_def [symmetric] by simp
      with len cnt show ?thesis by (simp add: useful_counted_def)
    qed
  qed
qed

lemma run_queue_ops_counted:
  assumes "run_queue_ops delegate ops (q, d) = Some (q', d')" and "useful_counted q"
  shows "useful_counted q'"
  using assms
proof (induction ops arbitrary: q d)
  case Nil
  then show ?case by simp
next
  case (Cons operation ops)
  from Cons.prems(1) obtain q1 d1 where
    step: "apply_queue_op delegate operation (q, d) = Some (q1, d1)"
    and rest: "run_queue_ops delegate ops (q1, d1) = Some (q', d')"
    by (auto split: option.splits)
  have "useful_counted q1"
  proof (cases operation)
    case (Op_EnqueueNewMonitorInterval rate useful tolerance rtt_us endt)
    with step Cons.prems(2) show ?thesis
      by (auto simp: EnqueueNewMonitorInterval_def new_MonitorInterval_def useful_counted_def
          Let_def)
  next
    case (Op_OnPacketSent sent_time pn bytes)
    with step MIQ_OnPacketSent_counted [OF Cons.prems(2), of sent_time pn bytes]
    show ?thesis by auto
  next
    case (Op_OnCongestionEvent acked lost rtt_us event_time)
    with step MIQ_OnCongestionEvent_counted [of delegate acked lost rtt_us event_time q d q1 d1]
      Cons.prems(2)
    show ?thesis by simp
  next
    case Op_OnRttInflationInStarting
    with step show ?thesis by (auto simp: OnRttInflationInStarting_def useful_counted_def)
  qed
  from Cons.IH [OF rest this] show ?case .
qed

lemma new_queue_counted: "useful_counted new_MonitorIntervalQueue"
  by (simp add: useful_counted_def new_MonitorIntervalQueue_def)

subsection \<open>The controller: what each step leaves alone, and the mode\<close>

lemma mode_step_allowed_refl [simp]: "mode_step_allowed m m"
  by (cases m) simp_all

lemma mode_step_allowed_PROBING [simp]: "mode_step_allowed m PROBING"
  by (cases m) simp_all

lemma gradient_blocks_frame [simp]:
  "mode (UpdateAverageGradient g c) = mode c"
  "cc_sending_rate (UpdateAverageGradient g c) = cc_sending_rate c"
  "latest_utility_info (UpdateAverageGradient g c) = latest_utility_info c"
  "rounds (UpdateAverageGradient g c) = rounds c"
  "direction (UpdateAverageGradient g c) = direction c"
  "interval_queue (UpdateAverageGradient g c) = interval_queue c"
  "previous_change (UpdateAverageGradient g c) = previous_change c"
  "mode (reset_on_direction_change x c) = mode c"
  "cc_sending_rate (reset_on_direction_change x c) = cc_sending_rate c"
  "latest_utility_info (reset_on_direction_change x c) = latest_utility_info c"
  "rounds (reset_on_direction_change x c) = rounds c"
  "direction (reset_on_direction_change x c) = direction c"
  "interval_queue (reset_on_direction_change x c) = interval_queue c"
  "previous_change (reset_on_direction_change x c) = previous_change c"
  "mode (raise_amplifier x c) = mode c"
  "cc_sending_rate (raise_amplifier x c) = cc_sending_rate c"
  "latest_utility_info (raise_amplifier x c) = latest_utility_info c"
  "rounds (raise_amplifier x c) = rounds c"
  "direction (raise_amplifier x c) = direction c"
  "interval_queue (raise_amplifier x c) = interval_queue c"
  "previous_change (raise_amplifier x c) = previous_change c"
  "mode (update_allowance x c) = mode c"
  "cc_sending_rate (update_allowance x c) = cc_sending_rate c"
  "latest_utility_info (update_allowance x c) = latest_utility_info c"
  "rounds (update_allowance x c) = rounds c"
  "direction (update_allowance x c) = direction c"
  "interval_queue (update_allowance x c) = interval_queue c"
  "previous_change (update_allowance x c) = previous_change c"
  "mode (reset_after_clip x c) = mode c"
  "cc_sending_rate (reset_after_clip x c) = cc_sending_rate c"
  "latest_utility_info (reset_after_clip x c) = latest_utility_info c"
  "rounds (reset_after_clip x c) = rounds c"
  "direction (reset_after_clip x c) = direction c"
  "interval_queue (reset_after_clip x c) = interval_queue c"
  "previous_change (reset_after_clip x c) = previous_change c"
  by (simp_all add: UpdateAverageGradient_def reset_on_direction_change_def raise_amplifier_def
      update_allowance_def reset_after_clip_def Let_def)

lemma rate_change_before_floor_frame:
  "same_but_gradient_state c (snd (rate_change_before_floor s1 s2 c))"
  by (simp add: rate_change_before_floor_def same_but_gradient_state_def Let_def)

lemma ComputeRateChange_frame:
  "same_but_gradient_state c (snd (ComputeRateChange s1 s2 c))"
  using rate_change_before_floor_frame [of c s1 s2]
  by (simp add: ComputeRateChange_def Let_def same_but_gradient_state_def)

lemma EnterProbing_mode: "EnterProbing c = Some c' \<Longrightarrow> mode c' = PROBING"
  by (auto simp: EnterProbing_def split: SenderMode.splits option.splits if_splits)

lemma OnUtilityAvailable_mode:
  assumes "OnUtilityAvailable utility_info c = Some c'"
  shows "mode_step_allowed (mode c) (mode c')"
proof (cases "mode c")
  case STARTING
  with assms show ?thesis
    by (auto simp: OnUtilityAvailable_def split: if_splits dest: EnterProbing_mode)
next
  case PROBING
  with assms show ?thesis
    by (auto simp: OnUtilityAvailable_def EnterDecisionMade_def Let_def split: if_splits
        dest: EnterProbing_mode)
next
  case DECISION_MADE
  let ?r = "ComputeRateChange (utility_info ! 0) (latest_utility_info c) c"
  from ComputeRateChange_frame [of c "utility_info ! 0" "latest_utility_info c"]
  have "mode (snd ?r) = mode c" by (simp add: same_but_gradient_state_def)
  with DECISION_MADE assms show ?thesis
    by (auto simp: OnUtilityAvailable_def Let_def split: if_splits dest: EnterProbing_mode)
qed

lemma MaybeSetSendingRate_mode:
  "MaybeSetSendingRate rand_value c = Some c' \<Longrightarrow> mode c' = mode c"
  by (auto simp: MaybeSetSendingRate_def Let_def split: if_splits option.splits bool.splits)

lemma OnPacketSent_mode:
  "OnPacketSent sent_time pn bytes rand_value c = Some c' \<Longrightarrow> mode c' = mode c"
  by (auto simp: OnPacketSent_def Let_def split: if_splits option.splits bool.splits
      dest: MaybeSetSendingRate_mode)

lemma MIQ_delegate_called:
  assumes "MIQ_OnCongestionEvent delegate acked lost rtt_us event_time q d = Some (q', d')"
  shows "d' = d \<or> (\<exists>batch qd. delegate batch qd d = Some d')"
  using assms
  by (auto simp: MIQ_OnCongestionEvent_def Let_def split: if_splits option.splits)

lemma controller_delegate_mode:
  "controller_delegate batch qd c = Some c' \<Longrightarrow> mode_step_allowed (mode c) (mode c')"
  using OnUtilityAvailable_mode [of batch "c\<lparr>interval_queue := qd\<rparr>" c']
  by (simp add: controller_delegate_def)

lemma rtt_inflation_in_starting_mode:
  "rtt_inflation_in_starting c rtt \<Longrightarrow> mode c = STARTING"
  by (simp add: rtt_inflation_in_starting_def)

lemma OnCongestionEvent_mode:
  assumes "OnCongestionEvent event_time rtt acked lost c = Some c'"
  shows "mode_step_allowed (mode c) (mode c')"
proof (cases "rtt \<noteq> 0 \<and> rtt_inflation_in_starting (update_avg_rtt rtt c) rtt")
  case True
  with assms have "EnterProbing ((update_avg_rtt rtt c)
             \<lparr>interval_queue := OnRttInflationInStarting (interval_queue c)\<rparr>) = Some c'"
    by (simp add: OnCongestionEvent_fast_path)
  from EnterProbing_mode [OF this] show ?thesis by simp
next
  case False
  define c1 where "c1 = (if rtt \<noteq> 0 then update_avg_rtt rtt c else c)"
  have m1: "mode c1 = mode c" by (simp add: c1_def)
  from assms obtain q' c2 where
    miq: "MIQ_OnCongestionEvent controller_delegate acked lost rtt event_time
            (interval_queue c) c1 = Some (q', c2)"
    and c': "c' = c2\<lparr>interval_queue := q'\<rparr>"
    unfolding OnCongestionEvent_queue [OF False] c1_def
    by (auto split: option.splits)
  from MIQ_delegate_called [OF miq] controller_delegate_mode [of _ _ c1 c2]
  have "mode_step_allowed (mode c1) (mode c2)" by auto
  with m1 c' show ?thesis by simp
qed

lemma api_step_mode:
  "api_step call c = Some c' \<Longrightarrow> mode_step_allowed (mode c) (mode c')"
  by (cases call) (auto dest: OnPacketSent_mode OnCongestionEvent_mode)

lemma api_trace_head:
  "api_trace calls c = Some states \<Longrightarrow> \<exists>rest. states = c # rest"
  by (cases calls) (auto split: option.splits)

lemma api_trace_modes:
  "api_trace calls c = Some states
     \<Longrightarrow> successively (\<lambda>a b. mode_step_allowed (mode a) (mode b)) states"
proof (induction calls arbitrary: c states)
  case Nil
  then show ?case by auto
next
  case (Cons call calls)
  from Cons.prems obtain c' rest where
    step: "api_step call c = Some c'" and tr: "api_trace calls c' = Some rest"
    and states: "states = c # rest"
    by (auto split: option.splits)
  from api_trace_head [OF tr] obtain rest' where rest: "rest = c' # rest'" by blast
  from Cons.IH [OF tr] api_step_mode [OF step] states rest show ?case by simp
qed

lemmas controller_eval =
  OnPacketSent_def OnCongestionEvent_def MaybeSetSendingRate_def
  ComputeMonitorDuration_def CreateUsefulInterval_def EnqueueNewMonitorInterval_def
  MIQ_OnPacketSent_def MIQ_OnCongestionEvent_def rtt_inflation_in_starting_def
  update_avg_rtt_def empty_queue_def current_def kMinimumPacketsPerInterval_def
  FLAGS_max_rtt_fluctuation_tolerance_ratio_in_starting_def EnterProbing_def
  OnRttInflationInStarting_def

subsection \<open>The sign of the rate change\<close>

lemma kMinimumRateChange_value: "kMinimumRateChange = 524288"
  by (simp add: kMinimumRateChange_def kMegabit_def trunc_to_int_def)

lemma floor_rate_change_sign:
  "0 < x \<Longrightarrow> kMinimumRateChange \<le> floor_rate_change x"
  "x < 0 \<Longrightarrow> floor_rate_change x \<le> - kMinimumRateChange"
  "floor_rate_change 0 = 0"
  by (auto simp: floor_rate_change_def kMinimumRateChange_value)

lemma amplify_change_sign:
  assumes "0 \<le> rate_change_amplifier c"
  shows "0 < amplify_change x c \<longleftrightarrow> 0 < x" and "amplify_change x c < 0 \<longleftrightarrow> x < 0"
proof -
  define f where "f =
     (if rate_change_amplifier c < 3 then rate_change_amplifier c + 1
      else if rate_change_amplifier c < 6 then 2 * rate_change_amplifier c - 2
      else if rate_change_amplifier c < 9 then 4 * rate_change_amplifier c - 14
      else 9 * rate_change_amplifier c - 50)"
  have eq: "amplify_change x c = x * f" by (simp add: amplify_change_def f_def)
  from assms have "0 < f" by (simp add: f_def)
  then show "0 < amplify_change x c \<longleftrightarrow> 0 < x" and "amplify_change x c < 0 \<longleftrightarrow> x < 0"
    unfolding eq by (simp_all add: zero_less_mult_iff mult_less_0_iff)
qed

lemma max_allowed_change_ratio_pos: "0 < max_allowed_change_ratio c"
  by (simp add: max_allowed_change_ratio_def kInitialMaximumProportionalChange_def
      kMaximumProportionalChangeStepSize_def add_pos_nonneg)

lemma change_ratio_zero: "change_ratio 0 c = 0"
  by (simp add: change_ratio_def)

lemma clip_change_sign:
  assumes "0 < cc_sending_rate c"
  shows "0 < clip_change x c \<longleftrightarrow> 0 < x" and "clip_change x c < 0 \<longleftrightarrow> x < 0"
proof -
  note m = max_allowed_change_ratio_pos [of c]
  have nz: "x \<noteq> 0" if "change_ratio x c > max_allowed_change_ratio c"
    using that m change_ratio_zero [of c] by auto
  from assms m have p: "0 < max_allowed_change_ratio c * cc_sending_rate c" by simp
  show "0 < clip_change x c \<longleftrightarrow> 0 < x"
    using nz p by (auto simp: clip_change_def)
  show "clip_change x c < 0 \<longleftrightarrow> x < 0"
    using nz p by (auto simp: clip_change_def)
qed

lemma UpdateAverageGradient_consistent:
  "gradient_window_consistent c \<Longrightarrow> avg_gradient (UpdateAverageGradient g c) = g"
  by (auto simp: gradient_window_consistent_def UpdateAverageGradient_def
      kAvgGradientSampleSize_def Let_def)

lemma amplifier_after_update [simp]:
  "rate_change_amplifier (UpdateAverageGradient g c) = rate_change_amplifier c"
  by (simp add: UpdateAverageGradient_def Let_def)

lemma amplifier_after_reset:
  "0 \<le> rate_change_amplifier c \<Longrightarrow> 0 \<le> rate_change_amplifier (reset_on_direction_change x c)"
  by (simp add: reset_on_direction_change_def)

lemma rate_change_before_floor_sign:
  assumes rate: "0 < cc_sending_rate c" and amp: "0 \<le> rate_change_amplifier c"
    and win: "gradient_window_consistent c"
  shows "0 < fst (rate_change_before_floor s1 s2 c)
           \<longleftrightarrow> 0 < (ui_utility s1 - ui_utility s2) / (ui_sending_rate s1 - ui_sending_rate s2)"
    and "fst (rate_change_before_floor s1 s2 c) < 0
           \<longleftrightarrow> (ui_utility s1 - ui_utility s2) / (ui_sending_rate s1 - ui_sending_rate s2) < 0"
proof -
  define g where "g = (ui_utility s1 - ui_utility s2) / (ui_sending_rate s1 - ui_sending_rate s2)"
  define ug where "ug = real kMegabit * (ui_utility s1 - ui_utility s2)
                          / (ui_sending_rate s1 - ui_sending_rate s2)"
  define c1 where "c1 = UpdateAverageGradient ug c"
  define change where "change = avg_gradient c1 * kUtilityGradientToRateChangeFactor"
  define c2 where "c2 = reset_on_direction_change change c1"
  define change1 where "change1 = amplify_change change c2"
  define c3 where "c3 = raise_amplifier change1 c2"
  have res: "fst (rate_change_before_floor s1 s2 c) = clip_change change1 c3"
    by (simp add: rate_change_before_floor_def Let_def c3_def change1_def c2_def change_def
        c1_def ug_def)
  have "ug = real kMegabit * g" by (simp add: ug_def g_def)
  with UpdateAverageGradient_consistent [OF win, of ug]
  have "change = 1048576 * 1048576 * g"
    by (simp add: change_def c1_def kUtilityGradientToRateChangeFactor_def kMegabit_def)
  then have s0: "0 < change \<longleftrightarrow> 0 < g" "change < 0 \<longleftrightarrow> g < 0"
    by (simp_all add: zero_less_mult_iff mult_less_0_iff)
  from amp have "0 \<le> rate_change_amplifier c2"
    unfolding c2_def c1_def by (intro amplifier_after_reset) simp
  from amplify_change_sign [OF this, of change]
  have s1: "0 < change1 \<longleftrightarrow> 0 < change" "change1 < 0 \<longleftrightarrow> change < 0"
    by (simp_all add: change1_def)
  from rate have "0 < cc_sending_rate c3"
    by (simp add: c3_def c2_def c1_def)
  from clip_change_sign [OF this, of change1]
  have s2: "0 < clip_change change1 c3 \<longleftrightarrow> 0 < change1"
    "clip_change change1 c3 < 0 \<longleftrightarrow> change1 < 0" by simp_all
  from s0 s1 s2 show "0 < fst (rate_change_before_floor s1 s2 c)
           \<longleftrightarrow> 0 < (ui_utility s1 - ui_utility s2) / (ui_sending_rate s1 - ui_sending_rate s2)"
    and "fst (rate_change_before_floor s1 s2 c) < 0
           \<longleftrightarrow> (ui_utility s1 - ui_utility s2) / (ui_sending_rate s1 - ui_sending_rate s2) < 0"
    unfolding res g_def by simp_all
qed

lemmas rate_change_eval =
  ComputeRateChange_def rate_change_before_floor_def UpdateAverageGradient_def
  reset_on_direction_change_def amplify_change_def raise_amplifier_def
  max_allowed_change_ratio_def change_ratio_def clip_change_def update_allowance_def
  reset_after_clip_def floor_rate_change_def kMinimumRateChange_value
  kUtilityGradientToRateChangeFactor_def kInitialMaximumProportionalChange_def
  kMaximumProportionalChangeStepSize_def kAvgGradientSampleSize_def kMegabit_def

subsection \<open>The clamp on the rate change\<close>

lemma clamp_rate_change_floor:
  "cc_sending_rate c = rate \<Longrightarrow> kMinSendingRate \<le> rate + clamp_rate_change c x"
  by (auto simp: clamp_rate_change_def)

lemma ComputeRateChange_rate [simp]:
  "cc_sending_rate (snd (ComputeRateChange s1 s2 c)) = cc_sending_rate c"
  "mode (snd (ComputeRateChange s1 s2 c)) = mode c"
  using ComputeRateChange_frame [of c s1 s2] by (simp_all add: same_but_gradient_state_def)

subsection \<open>The sums of the two halves\<close>








subsection \<open>Initialisation\<close>

text \<open>
  C9. Right after construction with an initial RTT of 10000 microseconds, an initial
  congestion window of 10 packets and a maximal window of 100, the pacing rate is
  \<open>10 * 1400 * 8 * 10^6 / 10000 = 11200000\<close> bits per second and the congestion window is
  \<open>11200000 * 10000 / 10^6 = 112000\<close> bytes: the queue is empty, so the pacing rate is the
  controller's rate, and \<open>avg_rtt\<close> is zero, so the window uses the initial RTT.
\<close>

theorem initial_pacing_rate_and_window:
  "PacingRate (new_CongestionController 10000 10 100) = 11200000
   \<and> GetCongestionWindow (new_CongestionController 10000 10 100) = 112000"
  by (simp add: PacingRate_def GetCongestionWindow_def new_CongestionController_def
      new_MonitorIntervalQueue_def empty_queue_def controller_consts)

subsection \<open>The step in STARTING\<close>

text \<open>
  C6. In STARTING, on a batch with a first entry: when the utility of the first entry is
  greater than the latest utility, the rate doubles, the latest utility becomes the first
  entry, the round counter goes up by one and everything else, the mode too, stays; if
  not, the rate is halved, the mode becomes PROBING and the round counter is 1.
\<close>

theorem starting_step:
  assumes "mode c = STARTING" and "utility_info \<noteq> []"
  shows "OnUtilityAvailable utility_info c =
           Some (if ui_utility (utility_info ! 0) > ui_utility (latest_utility_info c)
                 then c\<lparr>cc_sending_rate := 2 * cc_sending_rate c,
                        latest_utility_info := utility_info ! 0,
                        rounds := rounds c + 1\<rparr>
                 else c\<lparr>cc_sending_rate := cc_sending_rate c / 2,
                        mode := PROBING, rounds := 1\<rparr>)"
  using assms by (simp add: OnUtilityAvailable_def EnterProbing_def mult.commute)

theorem starting_step_witness:
  "mode ((new_CongestionController 10000 10 100)
          \<lparr>cc_sending_rate := 22400000, latest_utility_info := new_UtilityInfo 11200000 100\<rparr>)
     = STARTING
   \<and> [new_UtilityInfo 22400000 80] \<noteq> []
   \<and> OnUtilityAvailable [new_UtilityInfo 22400000 80]
       ((new_CongestionController 10000 10 100)
          \<lparr>cc_sending_rate := 22400000, latest_utility_info := new_UtilityInfo 11200000 100\<rparr>)
     = Some ((new_CongestionController 10000 10 100)
          \<lparr>cc_sending_rate := 11200000, latest_utility_info := new_UtilityInfo 11200000 100,
            mode := PROBING, rounds := 1\<rparr>)"
  using starting_step [of "(new_CongestionController 10000 10 100)
          \<lparr>cc_sending_rate := 22400000, latest_utility_info := new_UtilityInfo 11200000 100\<rparr>"
        "[new_UtilityInfo 22400000 80]"]
  by (simp add: new_CongestionController_def new_UtilityInfo_def)

subsection \<open>Invalid utility\<close>



subsection \<open>Delivery of a utility batch\<close>




text \<open>
  The same packet in the controller, acked at two times. Acked at 300, once the interval
  has ended, the interval is dropped and the controller stays as it was. Acked at 240,
  before the interval ends, the next event delivers the utility 0: the controller leaves
  STARTING with half its rate.
\<close>

lemma late_ack_stays_in_starting:
  "OnCongestionEvent 300 40 [ack_of_packet_1] [] one_packet_controller
   = Some (one_packet_controller
             \<lparr>interval_queue :=
                \<lparr>monitor_intervals = [], num_useful_intervals = 0,
                 num_available_intervals = 0\<rparr>\<rparr>)"
  by (simp add: OnCongestionEvent_def MIQ_OnCongestionEvent_def rtt_inflation_in_starting_def
      update_avg_rtt_def empty_queue_def controller_delegate_def example_defs queue_eval
      CalculateUtility_None_iff [THEN iffD2] controller_consts
      FLAGS_max_rtt_fluctuation_tolerance_ratio_in_starting_def Let_def)

lemma early_ack_leaves_starting:
  "Option.bind (OnCongestionEvent 240 40 [ack_of_packet_1] [] one_packet_controller)
     (OnCongestionEvent 300 40 [] [])
   = Some (one_packet_controller
             \<lparr>mode := PROBING, cc_sending_rate := 5600000, rounds := 1,
              interval_queue :=
                \<lparr>monitor_intervals = [], num_useful_intervals = 0,
                 num_available_intervals = 0\<rparr>\<rparr>)"
  by (simp add: OnCongestionEvent_def MIQ_OnCongestionEvent_def rtt_inflation_in_starting_def
      update_avg_rtt_def empty_queue_def controller_delegate_def OnUtilityAvailable_def
      EnterProbing_def example_defs queue_eval controller_consts
      FLAGS_max_rtt_fluctuation_tolerance_ratio_in_starting_def Let_def)

subsection \<open>The utility function\<close>



subsection \<open>Bytes acked and lost against bytes sent\<close>




subsection \<open>The RTT an event records\<close>

text \<open>
  C10. The loop of the queue, run with the RTT argument \<open>rtt\<close> of the controller's
  \<^verbatim>\<open>OnCongestionEvent\<close>, leaves every interval with its old samples followed by
  samples that all carry \<open>rtt\<close>, and with its old RTT at the end or \<open>rtt\<close>. The
  controller hands the queue that argument, not the smoothed \<open>avg_rtt\<close> it has just
  updated. So every interval of the queue after the event stems from an interval before
  it in that way; in particular all samples one event records are equal.
\<close>

theorem samples_carry_raw_rtt:
  "list_all2 (extends_with_rtt rtt) (monitor_intervals (interval_queue c))
     (fst (scan_intervals acked lost rtt event_time (monitor_intervals (interval_queue c)) 0))
   \<and> (\<not> (rtt \<noteq> 0 \<and> rtt_inflation_in_starting (update_avg_rtt rtt c) rtt) \<longrightarrow>
        OnCongestionEvent event_time rtt acked lost c =
          (case MIQ_OnCongestionEvent controller_delegate acked lost rtt event_time
                  (interval_queue c) (if rtt \<noteq> 0 then update_avg_rtt rtt c else c) of
             None \<Rightarrow> None
           | Some (q, c2) \<Rightarrow> Some (c2\<lparr>interval_queue := q\<rparr>)))
   \<and> (\<forall>c'. OnCongestionEvent event_time rtt acked lost c = Some c' \<longrightarrow>
          (\<forall>i'\<in>set (monitor_intervals (interval_queue c')).
             \<exists>interval\<in>set (monitor_intervals (interval_queue c)).
               extends_with_rtt rtt interval i'))"
proof (intro conjI allI impI ballI)
  show "list_all2 (extends_with_rtt rtt) (monitor_intervals (interval_queue c))
     (fst (scan_intervals acked lost rtt event_time (monitor_intervals (interval_queue c)) 0))"
    by (rule scan_extends)
next
  assume "\<not> (rtt \<noteq> 0 \<and> rtt_inflation_in_starting (update_avg_rtt rtt c) rtt)"
  then show "OnCongestionEvent event_time rtt acked lost c =
          (case MIQ_OnCongestionEvent controller_delegate acked lost rtt event_time
                  (interval_queue c) (if rtt \<noteq> 0 then update_avg_rtt rtt c else c) of
             None \<Rightarrow> None
           | Some (q, c2) \<Rightarrow> Some (c2\<lparr>interval_queue := q\<rparr>))"
    by (rule OnCongestionEvent_queue)
next
  fix c' i'
  assume run: "OnCongestionEvent event_time rtt acked lost c = Some c'"
    and i': "i' \<in> set (monitor_intervals (interval_queue c'))"
  show "\<exists>interval\<in>set (monitor_intervals (interval_queue c)). extends_with_rtt rtt interval i'"
  proof (cases "rtt \<noteq> 0 \<and> rtt_inflation_in_starting (update_avg_rtt rtt c) rtt")
    case True
    with run have "EnterProbing ((update_avg_rtt rtt c)
             \<lparr>interval_queue := OnRttInflationInStarting (interval_queue c)\<rparr>) = Some c'"
      by (simp add: OnCongestionEvent_fast_path)
    from EnterProbing_queue [OF this] have "monitor_intervals (interval_queue c') = []"
      by (simp add: OnRttInflationInStarting_def)
    with i' show ?thesis by simp
  next
    case False
    from run obtain q' c2 where
      miq: "MIQ_OnCongestionEvent controller_delegate acked lost rtt event_time
              (interval_queue c) (if rtt \<noteq> 0 then update_avg_rtt rtt c else c) = Some (q', c2)"
      and c': "c' = c2\<lparr>interval_queue := q'\<rparr>"
      unfolding OnCongestionEvent_queue [OF False]
      by (auto split: option.splits)
    from i' c' have "i' \<in> set (monitor_intervals q')" by simp
    with MIQ_result_intervals [OF miq]
    have "i' \<in> set (monitor_intervals (interval_queue c))
        \<or> i' \<in> set (fst (scan_intervals acked lost rtt event_time
                        (monitor_intervals (interval_queue c)) 0))" by auto
    then show ?thesis
    proof
      assume "i' \<in> set (monitor_intervals (interval_queue c))"
      then show ?thesis using extends_with_rtt_refl by blast
    next
      assume "i' \<in> set (fst (scan_intervals acked lost rtt event_time
                        (monitor_intervals (interval_queue c)) 0))"
      with scan_extends [of rtt "monitor_intervals (interval_queue c)" acked lost event_time 0]
      show ?thesis by (rule list_all2_source)
    qed
  qed
qed

theorem samples_carry_raw_rtt_witness:
  "OnCongestionEvent 240 50 [ack_of_packet_1] [] one_packet_controller = Some acked_with_rtt_50
   \<and> avg_rtt acked_with_rtt_50 = 42
   \<and> (\<exists>interval\<in>set (monitor_intervals (interval_queue one_packet_controller)).
         extends_with_rtt 50 interval
           (one_packet_interval
              \<lparr>bytes_acked := 1000,
               packet_rtt_samples := [\<lparr>packet_number = 1, sample_rtt = 50\<rparr>]\<rparr>))"
proof -
  have run: "OnCongestionEvent 240 50 [ack_of_packet_1] [] one_packet_controller
      = Some acked_with_rtt_50"
    by (simp add: OnCongestionEvent_def MIQ_OnCongestionEvent_def rtt_inflation_in_starting_def
        update_avg_rtt_def empty_queue_def acked_with_rtt_50_def example_defs queue_eval
        FLAGS_max_rtt_fluctuation_tolerance_ratio_in_starting_def trunc_to_int_def Let_def)
  have mem: "one_packet_interval
              \<lparr>bytes_acked := 1000,
               packet_rtt_samples := [\<lparr>packet_number = 1, sample_rtt = 50\<rparr>]\<rparr>
      \<in> set (monitor_intervals (interval_queue acked_with_rtt_50))"
    by (simp add: acked_with_rtt_50_def)
  from samples_carry_raw_rtt [of 50 one_packet_controller "[ack_of_packet_1]" "[]" 240] run mem
  have "\<exists>interval\<in>set (monitor_intervals (interval_queue one_packet_controller)).
         extends_with_rtt 50 interval
           (one_packet_interval
              \<lparr>bytes_acked := 1000,
               packet_rtt_samples := [\<lparr>packet_number = 1, sample_rtt = 50\<rparr>]\<rparr>)"
    by blast
  with run show ?thesis by (simp add: acked_with_rtt_50_def)
qed

subsection \<open>Mode transitions\<close>

text \<open>
  C7. Along every sequence of calls of \<^verbatim>\<open>OnPacketSent\<close> and
  \<^verbatim>\<open>OnCongestionEvent\<close> that the controller goes through, each state and the next
  have modes joined by an arrow of the graph STARTING to STARTING or PROBING, PROBING to
  PROBING or DECISION_MADE, DECISION_MADE to DECISION_MADE or PROBING; so does every step
  of \<^verbatim>\<open>OnUtilityAvailable\<close>. The RTT inflation fast path of
  \<^verbatim>\<open>OnCongestionEvent\<close> is taken in STARTING only, and the event then ends in
  PROBING.
\<close>

theorem mode_transitions:
  "(api_trace calls c = Some states \<longrightarrow>
      successively (\<lambda>a b. mode_step_allowed (mode a) (mode b)) states)
   \<and> (OnUtilityAvailable utility_info c = Some c' \<longrightarrow> mode_step_allowed (mode c) (mode c'))
   \<and> (rtt \<noteq> 0 \<and> rtt_inflation_in_starting (update_avg_rtt rtt c) rtt \<longrightarrow>
        mode c = STARTING
        \<and> (\<exists>c2. OnCongestionEvent event_time rtt acked lost c = Some c2 \<and> mode c2 = PROBING))"
proof (intro conjI impI)
  assume "api_trace calls c = Some states"
  then show "successively (\<lambda>a b. mode_step_allowed (mode a) (mode b)) states"
    by (rule api_trace_modes)
next
  assume "OnUtilityAvailable utility_info c = Some c'"
  then show "mode_step_allowed (mode c) (mode c')" by (rule OnUtilityAvailable_mode)
next
  assume fast: "rtt \<noteq> 0 \<and> rtt_inflation_in_starting (update_avg_rtt rtt c) rtt"
  then show "mode c = STARTING"
    using rtt_inflation_in_starting_mode [of "update_avg_rtt rtt c" rtt] by simp
next
  assume fast: "rtt \<noteq> 0 \<and> rtt_inflation_in_starting (update_avg_rtt rtt c) rtt"
  then have starting: "mode c = STARTING"
    using rtt_inflation_in_starting_mode [of "update_avg_rtt rtt c" rtt] by simp
  let ?c1 = "(update_avg_rtt rtt c)\<lparr>interval_queue := OnRttInflationInStarting (interval_queue c)\<rparr>"
  from fast have run: "OnCongestionEvent event_time rtt acked lost c = EnterProbing ?c1"
    by (simp add: OnCongestionEvent_fast_path)
  from starting obtain c2 where c2: "EnterProbing ?c1 = Some c2"
    by (simp add: EnterProbing_def)
  from EnterProbing_mode [OF c2] run c2
  show "\<exists>c2. OnCongestionEvent event_time rtt acked lost c = Some c2 \<and> mode c2 = PROBING"
    by simp
qed

theorem mode_transitions_witness:
  "(\<exists>states. api_trace example_calls (new_CongestionController 10000 10 100) = Some states
       \<and> map mode states = [STARTING, STARTING, STARTING, STARTING, PROBING]
       \<and> successively (\<lambda>a b. mode_step_allowed (mode a) (mode b)) states)
   \<and> (\<exists>c'. OnUtilityAvailable [new_UtilityInfo 11200000 0] one_packet_controller = Some c'
          \<and> mode_step_allowed (mode one_packet_controller) (mode c'))
   \<and> (80 \<noteq> (0::int) \<and> rtt_inflation_in_starting (update_avg_rtt 80 one_packet_controller) 80)
   \<and> mode one_packet_controller = STARTING
   \<and> (\<exists>c2. OnCongestionEvent 240 80 [] [] one_packet_controller = Some c2 \<and> mode c2 = PROBING)"
proof -
  have "\<exists>states. api_trace example_calls (new_CongestionController 10000 10 100) = Some states
       \<and> map mode states = [STARTING, STARTING, STARTING, STARTING, PROBING]"
    by (simp add: example_calls_def controller_eval example_defs controller_consts Let_def)
  then obtain states where
    tr: "api_trace example_calls (new_CongestionController 10000 10 100) = Some states"
    and modes: "map mode states = [STARTING, STARTING, STARTING, STARTING, PROBING]"
    by (elim exE conjE)
  have "\<exists>c'. OnUtilityAvailable [new_UtilityInfo 11200000 0] one_packet_controller = Some c'"
    by (simp add: OnUtilityAvailable_def EnterProbing_def example_defs)
  then obtain c' where
    step: "OnUtilityAvailable [new_UtilityInfo 11200000 0] one_packet_controller = Some c'"
    by (elim exE)
  have fast: "80 \<noteq> (0::int)
      \<and> rtt_inflation_in_starting (update_avg_rtt 80 one_packet_controller) 80"
    by (simp add: rtt_inflation_in_starting_def update_avg_rtt_def empty_queue_def example_defs
        FLAGS_max_rtt_fluctuation_tolerance_ratio_in_starting_def trunc_to_int_def)
  note mt1 = mode_transitions [of example_calls "new_CongestionController 10000 10 100" states
      "[]" "new_CongestionController 10000 10 100" 0 0 "[]" "[]"]
  note mt2 = mode_transitions [of "[]" one_packet_controller "[]"
      "[new_UtilityInfo 11200000 0]" c' 80 240 "[]" "[]"]
  from mt1 tr have a: "successively (\<lambda>a b. mode_step_allowed (mode a) (mode b)) states"
    by (elim conjE) simp
  from mt2 step have b: "mode_step_allowed (mode one_packet_controller) (mode c')"
    by (elim conjE) simp
  from mt2 fast have c: "mode one_packet_controller = STARTING"
    "\<exists>c2. OnCongestionEvent 240 80 [] [] one_packet_controller = Some c2 \<and> mode c2 = PROBING"
    by (elim conjE, simp)+
  from tr modes a have p1: "\<exists>states. api_trace example_calls (new_CongestionController 10000 10 100) = Some states
       \<and> map mode states = [STARTING, STARTING, STARTING, STARTING, PROBING]
       \<and> successively (\<lambda>a b. mode_step_allowed (mode a) (mode b)) states"
    by (intro exI [of _ states] conjI)
  from step b have p2: "\<exists>c'. OnUtilityAvailable [new_UtilityInfo 11200000 0] one_packet_controller = Some c'
          \<and> mode_step_allowed (mode one_packet_controller) (mode c')"
    by (intro exI [of _ c'] conjI)
  note f1 = fast [THEN conjunct1] and f2 = fast [THEN conjunct2]
  from p1 p2 f1 f2 c show ?thesis by (intro conjI)
qed

subsection \<open>The rate change and its floor\<close>

text \<open>
  C2, as the code has it. For samples of equal rate \<^verbatim>\<open>ComputeRateChange\<close> returns
  \<open>kMinimumRateChange\<close>, which is positive, and leaves the controller alone. For samples
  of different rates the floor keeps the sign of the change computed before it: a positive
  change yields at least \<open>kMinimumRateChange\<close>, a negative one at most its negation, and
  a change of zero is returned as zero. In a controller with a positive sending rate, an
  amplifier that is not negative and a consistent gradient window, the change before the
  floor has the sign of the utility gradient, so zero is returned exactly for equal
  utilities.
\<close>

theorem compute_rate_change_floor:
  "(ui_sending_rate s1 = ui_sending_rate s2 \<longrightarrow>
      ComputeRateChange s1 s2 c = (kMinimumRateChange, c) \<and> 0 < kMinimumRateChange)
   \<and> (ui_sending_rate s1 \<noteq> ui_sending_rate s2 \<longrightarrow>
        (0 < fst (rate_change_before_floor s1 s2 c) \<longrightarrow>
           kMinimumRateChange \<le> fst (ComputeRateChange s1 s2 c))
      \<and> (fst (rate_change_before_floor s1 s2 c) < 0 \<longrightarrow>
           fst (ComputeRateChange s1 s2 c) \<le> - kMinimumRateChange)
      \<and> (fst (rate_change_before_floor s1 s2 c) = 0 \<longrightarrow> fst (ComputeRateChange s1 s2 c) = 0))
   \<and> (ui_sending_rate s1 \<noteq> ui_sending_rate s2 \<and> 0 < cc_sending_rate c
        \<and> 0 \<le> rate_change_amplifier c \<and> gradient_window_consistent c \<longrightarrow>
        (0 < (ui_utility s1 - ui_utility s2) / (ui_sending_rate s1 - ui_sending_rate s2) \<longrightarrow>
           kMinimumRateChange \<le> fst (ComputeRateChange s1 s2 c))
      \<and> ((ui_utility s1 - ui_utility s2) / (ui_sending_rate s1 - ui_sending_rate s2) < 0 \<longrightarrow>
           fst (ComputeRateChange s1 s2 c) \<le> - kMinimumRateChange)
      \<and> (ui_utility s1 = ui_utility s2 \<longrightarrow> fst (ComputeRateChange s1 s2 c) = 0))"
proof (intro conjI impI)
  assume "ui_sending_rate s1 = ui_sending_rate s2"
  then show "ComputeRateChange s1 s2 c = (kMinimumRateChange, c)"
    by (simp add: ComputeRateChange_def)
next
  show "0 < kMinimumRateChange" by (simp add: kMinimumRateChange_value)
next
  assume "ui_sending_rate s1 \<noteq> ui_sending_rate s2"
    and "0 < fst (rate_change_before_floor s1 s2 c)"
  then show "kMinimumRateChange \<le> fst (ComputeRateChange s1 s2 c)"
    by (simp add: ComputeRateChange_def Let_def floor_rate_change_sign)
next
  assume "ui_sending_rate s1 \<noteq> ui_sending_rate s2"
    and "fst (rate_change_before_floor s1 s2 c) < 0"
  then show "fst (ComputeRateChange s1 s2 c) \<le> - kMinimumRateChange"
    by (simp add: ComputeRateChange_def Let_def floor_rate_change_sign)
next
  assume "ui_sending_rate s1 \<noteq> ui_sending_rate s2"
    and "fst (rate_change_before_floor s1 s2 c) = 0"
  then show "fst (ComputeRateChange s1 s2 c) = 0"
    by (simp add: ComputeRateChange_def Let_def floor_rate_change_sign)
next
  assume wf: "ui_sending_rate s1 \<noteq> ui_sending_rate s2 \<and> 0 < cc_sending_rate c
        \<and> 0 \<le> rate_change_amplifier c \<and> gradient_window_consistent c"
    and g: "0 < (ui_utility s1 - ui_utility s2) / (ui_sending_rate s1 - ui_sending_rate s2)"
  with rate_change_before_floor_sign(1) [of c s1 s2]
  have "0 < fst (rate_change_before_floor s1 s2 c)" by simp
  with wf show "kMinimumRateChange \<le> fst (ComputeRateChange s1 s2 c)"
    by (simp add: ComputeRateChange_def Let_def floor_rate_change_sign)
next
  assume wf: "ui_sending_rate s1 \<noteq> ui_sending_rate s2 \<and> 0 < cc_sending_rate c
        \<and> 0 \<le> rate_change_amplifier c \<and> gradient_window_consistent c"
    and g: "(ui_utility s1 - ui_utility s2) / (ui_sending_rate s1 - ui_sending_rate s2) < 0"
  with rate_change_before_floor_sign(2) [of c s1 s2]
  have "fst (rate_change_before_floor s1 s2 c) < 0" by simp
  with wf show "fst (ComputeRateChange s1 s2 c) \<le> - kMinimumRateChange"
    by (simp add: ComputeRateChange_def Let_def floor_rate_change_sign)
next
  assume wf: "ui_sending_rate s1 \<noteq> ui_sending_rate s2 \<and> 0 < cc_sending_rate c
        \<and> 0 \<le> rate_change_amplifier c \<and> gradient_window_consistent c"
    and g: "ui_utility s1 = ui_utility s2"
  with rate_change_before_floor_sign [of c s1 s2]
  have "fst (rate_change_before_floor s1 s2 c) = 0" by simp
  with wf show "fst (ComputeRateChange s1 s2 c) = 0"
    by (simp add: ComputeRateChange_def Let_def floor_rate_change_sign)
qed

theorem compute_rate_change_floor_witness:
  "ui_sending_rate (new_UtilityInfo 2097152 2) \<noteq> ui_sending_rate (new_UtilityInfo 1048576 1)
   \<and> 0 < cc_sending_rate (new_CongestionController 10000 10 100)
   \<and> 0 \<le> rate_change_amplifier (new_CongestionController 10000 10 100)
   \<and> gradient_window_consistent (new_CongestionController 10000 10 100)
   \<and> 0 < (ui_utility (new_UtilityInfo 2097152 2) - ui_utility (new_UtilityInfo 1048576 1))
          / (ui_sending_rate (new_UtilityInfo 2097152 2)
             - ui_sending_rate (new_UtilityInfo 1048576 1))
   \<and> kMinimumRateChange
       \<le> fst (ComputeRateChange (new_UtilityInfo 2097152 2) (new_UtilityInfo 1048576 1)
                (new_CongestionController 10000 10 100))
   \<and> fst (ComputeRateChange (new_UtilityInfo 2097152 2) (new_UtilityInfo 1048576 1)
            (new_CongestionController 10000 10 100)) = 560000
   \<and> ComputeRateChange (new_UtilityInfo 2097152 2) (new_UtilityInfo 2097152 1)
         (new_CongestionController 10000 10 100)
       = (kMinimumRateChange, new_CongestionController 10000 10 100)"
proof -
  let ?s1 = "new_UtilityInfo 2097152 2" and ?s2 = "new_UtilityInfo 1048576 1"
  let ?s3 = "new_UtilityInfo 2097152 1"
  let ?c = "new_CongestionController 10000 10 100"
  have h1: "ui_sending_rate ?s1 \<noteq> ui_sending_rate ?s2" by (simp add: new_UtilityInfo_def)
  have h2: "0 < cc_sending_rate ?c"
    by (simp add: new_CongestionController_def kNumMicrosPerSecond_def kDefaultTCPMSS_def
        kBitsPerByte_def)
  have h3: "0 \<le> rate_change_amplifier ?c" by (simp add: new_CongestionController_def)
  have h4: "gradient_window_consistent ?c"
    by (simp add: gradient_window_consistent_def new_CongestionController_def)
  have h5: "0 < (ui_utility ?s1 - ui_utility ?s2) / (ui_sending_rate ?s1 - ui_sending_rate ?s2)"
    by (simp add: new_UtilityInfo_def)
  have h6: "ui_sending_rate ?s1 = ui_sending_rate ?s3" by (simp add: new_UtilityInfo_def)
  have v: "fst (ComputeRateChange ?s1 ?s2 ?c) = 560000"
    by (simp add: rate_change_eval new_UtilityInfo_def new_CongestionController_def
        new_MonitorIntervalQueue_def kNumMicrosPerSecond_def kDefaultTCPMSS_def
        kBitsPerByte_def Let_def)
  from compute_rate_change_floor [of ?s1 ?s2 ?c] h1 h2 h3 h4 h5
  have a: "kMinimumRateChange \<le> fst (ComputeRateChange ?s1 ?s2 ?c)" by simp
  from compute_rate_change_floor [of ?s1 ?s3 ?c] h6
  have b: "ComputeRateChange ?s1 ?s3 ?c = (kMinimumRateChange, ?c)" by simp
  from h1 h2 h3 h4 h5 a v b show ?thesis by (intro conjI)
qed

text \<open>
  The floor tests \<open>change < 0\<close> and \<open>change > 0\<close> only: two samples of different
  rates and equal utilities give a change of zero, below \<open>kMinimumRateChange\<close>.
\<close>

theorem compute_rate_change_floor_counterexample:
  "ui_sending_rate (new_UtilityInfo 2097152 5) \<noteq> ui_sending_rate (new_UtilityInfo 1048576 5)
   \<and> fst (ComputeRateChange (new_UtilityInfo 2097152 5) (new_UtilityInfo 1048576 5)
            (new_CongestionController 10000 10 100)) = 0
   \<and> \<bar>fst (ComputeRateChange (new_UtilityInfo 2097152 5) (new_UtilityInfo 1048576 5)
            (new_CongestionController 10000 10 100))\<bar> < kMinimumRateChange"
  by (simp add: rate_change_eval new_UtilityInfo_def new_CongestionController_def
      new_MonitorIntervalQueue_def kNumMicrosPerSecond_def kDefaultTCPMSS_def kBitsPerByte_def
      Let_def)

subsection \<open>The least sending rate\<close>

text \<open>
  C1, as the code has it. The rate change is clamped where it is applied: a step of
  \<^verbatim>\<open>OnUtilityAvailable\<close> that ends in DECISION_MADE (a decision made in PROBING, or
  a change in the same direction in DECISION_MADE) leaves a sending rate of at least
  \<open>kMinSendingRate\<close>. A step that stays in STARTING doubles the rate and so keeps a
  rate that was at least \<open>kMinSendingRate\<close> so.
\<close>

theorem rate_floor_after_decision:
  assumes "OnUtilityAvailable utility_info c = Some c'"
  shows "(mode c' = DECISION_MADE \<longrightarrow> kMinSendingRate \<le> cc_sending_rate c')
       \<and> (mode c = STARTING \<and> mode c' = STARTING \<and> kMinSendingRate \<le> cc_sending_rate c \<longrightarrow>
            kMinSendingRate \<le> cc_sending_rate c')"
proof (cases "mode c")
  case STARTING
  have "0 \<le> kMinSendingRate" by (simp add: kMinSendingRate_def)
  with STARTING assms show ?thesis
    by (auto simp: OnUtilityAvailable_def split: if_splits dest: EnterProbing_mode)
next
  case PROBING
  show ?thesis
  proof (cases "CanMakeDecision utility_info")
    case True
    with PROBING assms show ?thesis
      by (auto simp: OnUtilityAvailable_def EnterDecisionMade_def Let_def
          clamp_rate_change_floor)
  next
    case False
    with PROBING assms have "EnterProbing c = Some c'"
      by (simp add: OnUtilityAvailable_def)
    from EnterProbing_mode [OF this] PROBING show ?thesis by simp
  qed
next
  case DECISION_MADE
  let ?r = "ComputeRateChange (utility_info ! 0) (latest_utility_info c) c"
  from DECISION_MADE assms show ?thesis
    by (auto simp: OnUtilityAvailable_def Let_def clamp_rate_change_floor split: if_splits
        dest: EnterProbing_mode)
qed

theorem rate_floor_after_decision_witness:
  "(\<exists>c'. OnUtilityAvailable [new_UtilityInfo 2200000 1] deciding_controller = Some c'
         \<and> mode c' = DECISION_MADE \<and> cc_sending_rate c' = 2097152
         \<and> kMinSendingRate \<le> cc_sending_rate c')
   \<and> (\<exists>c'. OnUtilityAvailable [new_UtilityInfo 11200000 5] (new_CongestionController 10000 10 100)
              = Some c'
         \<and> mode (new_CongestionController 10000 10 100) = STARTING \<and> mode c' = STARTING
         \<and> kMinSendingRate \<le> cc_sending_rate (new_CongestionController 10000 10 100)
         \<and> kMinSendingRate \<le> cc_sending_rate c')"
proof -
  have "\<exists>c'. OnUtilityAvailable [new_UtilityInfo 2200000 1] deciding_controller = Some c'
         \<and> mode c' = DECISION_MADE \<and> cc_sending_rate c' = 2097152"
    by (simp add: OnUtilityAvailable_def clamp_rate_change_def rate_change_eval
        deciding_controller_def new_UtilityInfo_def new_CongestionController_def
        new_MonitorIntervalQueue_def controller_consts Let_def)
  then obtain c1 where
    r1: "OnUtilityAvailable [new_UtilityInfo 2200000 1] deciding_controller = Some c1"
    and m1: "mode c1 = DECISION_MADE" and v1: "cc_sending_rate c1 = 2097152"
    by (elim exE conjE)
  from rate_floor_after_decision [OF r1] m1
  have f1: "kMinSendingRate \<le> cc_sending_rate c1" by simp
  have "\<exists>c'. OnUtilityAvailable [new_UtilityInfo 11200000 5] (new_CongestionController 10000 10 100)
              = Some c'
         \<and> mode (new_CongestionController 10000 10 100) = STARTING \<and> mode c' = STARTING
         \<and> kMinSendingRate \<le> cc_sending_rate (new_CongestionController 10000 10 100)"
    by (simp add: OnUtilityAvailable_def new_UtilityInfo_def new_CongestionController_def
        new_MonitorIntervalQueue_def controller_consts)
  then obtain c2 where
    r2: "OnUtilityAvailable [new_UtilityInfo 11200000 5] (new_CongestionController 10000 10 100)
          = Some c2"
    and m2: "mode (new_CongestionController 10000 10 100) = STARTING" "mode c2 = STARTING"
    and v2: "kMinSendingRate \<le> cc_sending_rate (new_CongestionController 10000 10 100)"
    by (elim exE conjE)
  from rate_floor_after_decision [OF r2] m2 v2
  have f2: "kMinSendingRate \<le> cc_sending_rate c2" by simp
  from r1 m1 v1 f1 have p1: "\<exists>c'. OnUtilityAvailable [new_UtilityInfo 2200000 1]
             deciding_controller = Some c'
         \<and> mode c' = DECISION_MADE \<and> cc_sending_rate c' = 2097152
         \<and> kMinSendingRate \<le> cc_sending_rate c'"
    by (intro exI [of _ c1] conjI)
  from r2 m2 v2 f2 have p2: "\<exists>c'. OnUtilityAvailable [new_UtilityInfo 11200000 5]
             (new_CongestionController 10000 10 100) = Some c'
         \<and> mode (new_CongestionController 10000 10 100) = STARTING \<and> mode c' = STARTING
         \<and> kMinSendingRate \<le> cc_sending_rate (new_CongestionController 10000 10 100)
         \<and> kMinSendingRate \<le> cc_sending_rate c'"
    by (intro exI [of _ c2] conjI)
  from p1 p2 show ?thesis by (intro conjI)
qed

text \<open>
  The steps through \<^verbatim>\<open>EnterProbing\<close> scale the rate and apply no floor: a
  controller just built with a rate of 2800000 that receives a first utility of 0 halves
  it to 1400000, below \<open>kMinSendingRate = 2097152\<close>.
\<close>

theorem rate_floor_counterexample:
  "kMinSendingRate \<le> cc_sending_rate (new_CongestionController 4000 1 100)
   \<and> OnUtilityAvailable [new_UtilityInfo 2800000 0] (new_CongestionController 4000 1 100)
     = Some ((new_CongestionController 4000 1 100)
               \<lparr>cc_sending_rate := 1400000, mode := PROBING, rounds := 1\<rparr>)
   \<and> (1400000 :: real) < kMinSendingRate"
  by (simp add: OnUtilityAvailable_def EnterProbing_def new_CongestionController_def
      new_UtilityInfo_def controller_consts)

end
